theory Spec2Isabelle
  imports Complex_Main "HOL-Library.Word"
begin

text \<open>
  A shallow embedding of parts of the Parthenon sources: the block timer
  (\<open>src/utils/block_timer.hpp\<close>), variable packing
  (\<open>src/interface/container_iterator.hpp\<close>), the BiCGStab solver
  (\<open>src/solvers/bicgstab_solver.hpp\<close>) and the Poisson example package
  (\<open>example/poisson_cg/poisson_cg_package.cpp\<close>).

  Conventions. \<open>Real\<close> is modelled as \<open>real\<close>: rounding is left out, and a
  quotient with denominator zero or a square root of a negative number, which have no real
  value (IEEE arithmetic yields an infinity or a NaN there), is an explicit result of the
  model. C++ \<open>int\<close> counters and sizes are \<open>nat\<close> or \<open>int\<close> without overflow.
  A \<open>par_for\<close> or \<open>par_reduce\<close> over blocks and interior cells is a \<open>fold\<close> over
  the list of cells in loop-nest order.
\<close>

section \<open>Block timer\<close>

text \<open>
  \<open>BlockTimer\<close> stores a 64-bit clock reading \<open>start_\<close> when it is constructed and,
  when it is destroyed, reads the clock again and adds the elapsed tics to \<open>*cost_\<close>.
  The readings are \<open>uint64_t\<close>, modelled as \<open>64 word\<close>; subtraction on them wraps.
\<close>

type_synonym u64 = "64 word"

text \<open>
  \<open>std::numeric_limits<uint64_t>::max()\<close>, the word of all ones.
\<close>

definition uint64_max :: u64 where
  "uint64_max = - 1"

text \<open>
  The value \<open>diff\<close> of the destructor (block\_timer.hpp, lines 38-41).
  \<open>static_cast<double>\<close> of an unsigned value is its embedding into the reals.
\<close>

definition BlockTimer_diff :: "u64 \<Rightarrow> u64 \<Rightarrow> real" where
  "BlockTimer_diff start stop =
     (if stop < start
      then real (unat (uint64_max - start)) + real (unat stop)
      else real (unat (stop - start)))"

text \<open>
  The destructor's effect on the accumulator: \<open>Kokkos::atomic_add(cost_, diff)\<close>.
\<close>

definition BlockTimer_destroy :: "real \<Rightarrow> u64 \<Rightarrow> u64 \<Rightarrow> real" where
  "BlockTimer_destroy cost start stop = cost + BlockTimer_diff start stop"

section \<open>Variable packs\<close>

text \<open>
  A \<open>CellVariable<T>\<close> as far as packing reads it: its six extents \<open>GetDim(1..6)\<close>
  and \<open>data.Get(k, j, i)\<close>, the three-dimensional slice for the component
  \<open>(k, j, i)\<close>, where \<open>k < GetDim(6)\<close>, \<open>j < GetDim(5)\<close>, \<open>i < GetDim(4)\<close>.
  The type \<open>'a\<close> is the type of a slice.
\<close>

record 'a CellVariable =
  dim1 :: nat
  dim2 :: nat
  dim3 :: nat
  dim4 :: nat
  dim5 :: nat
  dim6 :: nat
  data_Get :: "nat \<Rightarrow> nat \<Rightarrow> nat \<Rightarrow> 'a"

text \<open>
  \<open>VarList<T>\<close> is a \<open>std::forward_list\<close> of shared pointers to cell variables;
  \<open>push_front\<close> is \<open>#\<close>.
\<close>

type_synonym 'a VarList = "'a CellVariable list"

text \<open>
  A container as far as \<open>MakeListFromNames\<close> reads it: \<open>GetCellVariableMap()\<close> and
  \<open>GetSparseMap()\<close>, the latter composed with \<open>GetVector()\<close>.
\<close>

record 'a Container =
  var_map :: "string \<rightharpoonup> 'a CellVariable"
  sparse_map :: "string \<rightharpoonup> 'a CellVariable list"

text \<open>
  The ways pack construction by names does not return a pack.
  \<open>AmbiguousField n\<close> is the \<open>std::exit(1)\<close> after the message
  "n found in both var\_map and sparse\_map in PackVariables" (lines 166-172);
  \<open>FieldNotFound n\<close> is the \<open>std::exit(1)\<close> after
  "n not found in var\_map or sparse\_map in PackVariables" (lines 179-184).
  \<open>UndefinedFront\<close> stands for \<open>vars.front()\<close> evaluated on an empty
  \<open>forward_list\<close> (lines 73 and 107), which C++ leaves undefined: the source makes no
  check and reports nothing there.
  \<open>EmptySelection\<close> is the error kind the specification names for an empty selection;
  no path of the source produces it.
\<close>

datatype pack_error =
    AmbiguousField string
  | FieldNotFound string
  | EmptySelection
  | UndefinedFront

text \<open>
  \<open>VariablePack\<close>: the view \<open>v_\<close> (a one-dimensional array of slices, here the
  field \<open>view\<close>) and the four extents \<open>dims_\<close> (here \<open>dims\<close>).
\<close>

record 'a VariablePack =
  view :: "'a list"
  dims :: "nat list"

text \<open>
  \<open>IndexedVariablePack\<close> adds the two index arrays \<open>ilo\<close> and \<open>ihi\<close>
  (\<open>Kokkos::View<int*>\<close>).
\<close>

record 'a IndexedVariablePack = "'a VariablePack" +
  ilo :: "int list"
  ihi :: "int list"

text \<open>
  The first loop of \<open>MakePack\<close> and \<open>MakeIndexedPack\<close>:
  \<open>vsize += v->GetDim(6) * v->GetDim(5) * v->GetDim(4)\<close>.
\<close>

definition count_size :: "'a VarList \<Rightarrow> nat" where
  "count_size vars = fold (\<lambda>v vsize. vsize + dim6 v * dim5 v * dim4 v) vars 0"

text \<open>
  The counter \<open>nvars++\<close> of the first loop of \<open>MakeIndexedPack\<close>.
\<close>

definition count_nvars :: "'a VarList \<Rightarrow> nat" where
  "count_nvars vars = fold (\<lambda>v nvars. Suc nvars) vars 0"

text \<open>
  The slices of one variable in the order of the triple loop over \<open>k\<close>, \<open>j\<close>,
  \<open>i\<close> (lines 79-85 and 116-122).
\<close>

definition slices :: "'a CellVariable \<Rightarrow> 'a list" where
  "slices v = concat (map (\<lambda>k. concat (map (\<lambda>j. map (\<lambda>i. data_Get v k j i)
       [0..<dim4 v]) [0..<dim5 v])) [0..<dim6 v])"

text \<open>
  The triple loop itself: each iteration is \<open>host_view(vindex++) = v->data.Get(k, j, i)\<close>.
  A write beyond the allocated length would be out of bounds in C++ and is a no-op of
  list update; \<open>fold_copy_slices\<close> below shows that every write is in range.
\<close>

definition copy_slices :: "'a CellVariable \<Rightarrow> 'a list \<times> nat \<Rightarrow> 'a list \<times> nat" where
  "copy_slices v = fold (\<lambda>x (host_view, vindex). (host_view[vindex := x], Suc vindex)) (slices v)"

text \<open>
  \<open>MakePack\<close> (lines 66-90). \<open>dflt\<close> is the default-constructed slice that
  fills the freshly allocated view. \<open>vars.front()\<close> is reached after the size count and
  before any entry is written.
\<close>

definition MakePack :: "'a \<Rightarrow> 'a VarList \<Rightarrow> pack_error + 'a VariablePack" where
  "MakePack dflt vars =
     (let vsize = count_size vars in
      case vars of
        [] \<Rightarrow> Inl UndefinedFront
      | fvar # _ \<Rightarrow>
          let host_view = replicate vsize dflt;
              (cv, vindex) = fold copy_slices vars (host_view, 0)
          in Inr \<lparr>view = cv, dims = [dim1 fvar, dim2 fvar, dim3 fvar, vsize]\<rparr>)"

text \<open>
  One iteration of the copy loop of \<open>MakeIndexedPack\<close> (lines 114-125):
  \<open>h_ilo(ivar) = vindex\<close>, the triple loop, \<open>h_ihi(ivar) = vindex - 1\<close>,
  \<open>ivar++\<close>.
\<close>

definition index_step ::
  "'a CellVariable \<Rightarrow> 'a list \<times> nat \<times> nat \<times> int list \<times> int list
     \<Rightarrow> 'a list \<times> nat \<times> nat \<times> int list \<times> int list" where
  "index_step v = (\<lambda>(host_view, vindex, ivar, h_ilo, h_ihi).
     let h_ilo' = h_ilo[ivar := int vindex];
         (host_view', vindex') = copy_slices v (host_view, vindex);
         h_ihi' = h_ihi[ivar := int vindex' - 1]
     in (host_view', vindex', Suc ivar, h_ilo', h_ihi'))"

text \<open>
  \<open>MakeIndexedPack\<close> (lines 91-131). The index views are allocated with
  \<open>nvars\<close> zero entries.
\<close>

definition MakeIndexedPack :: "'a \<Rightarrow> 'a VarList \<Rightarrow> pack_error + 'a IndexedVariablePack" where
  "MakeIndexedPack dflt vars =
     (let vsize = count_size vars; nvars = count_nvars vars;
          index_lo = replicate nvars 0; index_hi = replicate nvars 0 in
      case vars of
        [] \<Rightarrow> Inl UndefinedFront
      | fvar # _ \<Rightarrow>
          let host_view = replicate vsize dflt;
              (cv, vindex, ivar, h_ilo, h_ihi) =
                 fold index_step vars (host_view, 0, 0, index_lo, index_hi)
          in Inr \<lparr>view = cv, dims = [dim1 fvar, dim2 fvar, dim3 fvar, vsize],
                  ilo = h_ilo, ihi = h_ihi\<rparr>)"

text \<open>
  The body of the loop of \<open>MakeListFromNames\<close> (lines 157-185), over the names from
  the last to the first. The source looks the name up in \<open>varMap\<close>, which is the map
  it declared as \<open>var_map\<close>. The inner loop pushes the members of a sparse variable
  from the last to the first.
\<close>

fun names_loop :: "'a Container \<Rightarrow> string list \<Rightarrow> 'a VarList \<Rightarrow> pack_error + 'a VarList" where
  "names_loop c [] vars = Inr vars"
| "names_loop c (it # rest) vars =
     (let (found, vars1) =
            (case var_map c it of Some v \<Rightarrow> (True, v # vars) | None \<Rightarrow> (False, vars))
      in case sparse_map c it of
           Some svec \<Rightarrow>
             if found then Inl (AmbiguousField it)
             else names_loop c rest (fold (#) (rev svec) vars1)
         | None \<Rightarrow>
             if \<not> found then Inl (FieldNotFound it)
             else names_loop c rest vars1)"

text \<open>
  \<open>MakeListFromNames\<close> (lines 152-187): \<open>names.rbegin()\<close> to \<open>names.rend()\<close>.
\<close>

definition MakeListFromNames :: "'a Container \<Rightarrow> string list \<Rightarrow> pack_error + 'a VarList" where
  "MakeListFromNames c names = names_loop c (rev names) []"

text \<open>
  \<open>PackVariables(c, names)\<close> (lines 189-193). The source discards the result of
  \<open>MakeListFromNames\<close> and passes an undeclared \<open>vars\<close>; the model passes the
  list just made.
\<close>

definition PackVariables :: "'a \<Rightarrow> 'a Container \<Rightarrow> string list \<Rightarrow> pack_error + 'a VariablePack" where
  "PackVariables dflt c names =
     (case MakeListFromNames c names of Inl e \<Rightarrow> Inl e | Inr vars \<Rightarrow> MakePack dflt vars)"

text \<open>
  \<open>PackIndexedVariables(c, names)\<close> (lines 195-199), read in the same way.
\<close>

definition PackIndexedVariables ::
  "'a \<Rightarrow> 'a Container \<Rightarrow> string list \<Rightarrow> pack_error + 'a IndexedVariablePack" where
  "PackIndexedVariables dflt c names =
     (case MakeListFromNames c names of Inl e \<Rightarrow> Inl e | Inr vars \<Rightarrow> MakeIndexedPack dflt vars)"

text \<open>
  Reading the entries \<open>lo..hi\<close> of a pack, as in
  \<open>for (int n = lo; n <= hi; n++) v(n)\<close>.
\<close>

definition read_range :: "'a list \<Rightarrow> int \<Rightarrow> int \<Rightarrow> 'a list" where
  "read_range cv lo hi = map (\<lambda>n. cv ! nat n) [lo..hi]"

text \<open>
  The component count of a variable.
\<close>

definition ncomp :: "'a CellVariable \<Rightarrow> nat" where
  "ncomp v = dim6 v * dim5 v * dim4 v"

text \<open>
  The lower offsets that the copy loop records when it starts at index \<open>vi\<close>.
\<close>

fun los :: "nat \<Rightarrow> 'a VarList \<Rightarrow> int list" where
  "los vi [] = []"
| "los vi (v # vs) = int vi # los (vi + ncomp v) vs"

text \<open>
  The upper offsets that the copy loop records when it starts at index \<open>vi\<close>.
\<close>

fun his :: "nat \<Rightarrow> 'a VarList \<Rightarrow> int list" where
  "his vi [] = []"
| "his vi (v # vs) = (int (vi + ncomp v) - 1) # his (vi + ncomp v) vs"

text \<open>
  The variables one name contributes to the list: the plain variable, or the members of
  the sparse variable of that name.
\<close>

definition fields_of :: "'a Container \<Rightarrow> string \<Rightarrow> 'a VarList" where
  "fields_of c n =
     (case var_map c n of
        Some v \<Rightarrow> [v]
      | None \<Rightarrow> (case sparse_map c n of Some svec \<Rightarrow> svec | None \<Rightarrow> []))"

text \<open>
  The name is found in both maps.
\<close>

definition in_both :: "'a Container \<Rightarrow> string \<Rightarrow> bool" where
  "in_both c n = (var_map c n \<noteq> None \<and> sparse_map c n \<noteq> None)"

text \<open>
  The name is found in neither map.
\<close>

definition in_neither :: "'a Container \<Rightarrow> string \<Rightarrow> bool" where
  "in_neither c n = (var_map c n = None \<and> sparse_map c n = None)"

text \<open>
  The name is found in exactly one of the two maps.
\<close>

definition found_once :: "'a Container \<Rightarrow> string \<Rightarrow> bool" where
  "found_once c n = (\<not> in_both c n \<and> \<not> in_neither c n)"

text \<open>
  Example data: a variable with \<open>n\<close> components along \<open>GetDim(4)\<close>.
\<close>

definition line_var :: "nat \<Rightarrow> (nat \<Rightarrow> 'a) \<Rightarrow> 'a CellVariable" where
  "line_var n f = \<lparr>dim1 = 1, dim2 = 1, dim3 = 1, dim4 = n, dim5 = 1, dim6 = 1,
                   data_Get = (\<lambda>k j i. f i)\<rparr>"

text \<open>
  Example data: a container with the plain fields a (one component), b (two) and c (one).
\<close>

definition abc_container :: "int Container" where
  "abc_container = \<lparr>var_map = [''a'' \<mapsto> line_var 1 (\<lambda>i. 10),
                                ''b'' \<mapsto> line_var 2 (\<lambda>i. 20 + int i),
                                ''c'' \<mapsto> line_var 1 (\<lambda>i. 30)],
                     sparse_map = Map.empty\<rparr>"

text \<open>
  Example data: a container where the name a is both a plain and a sparse variable, and
  no other name is known.
\<close>

definition both_container :: "int Container" where
  "both_container = \<lparr>var_map = [''a'' \<mapsto> line_var 1 (\<lambda>i. 10)],
                      sparse_map = [''a'' \<mapsto> [line_var 1 (\<lambda>i. 11), line_var 1 (\<lambda>i. 12)]]\<rparr>"

text \<open>
  Example data: a container whose only name is a sparse variable with no member.
\<close>

definition empty_sparse_container :: "int Container" where
  "empty_sparse_container = \<lparr>var_map = Map.empty, sparse_map = [''s'' \<mapsto> []]\<rparr>"

section \<open>Mesh data and the BiCGStab solver\<close>

text \<open>
  \<open>TaskStatus::complete\<close>, \<open>incomplete\<close> and \<open>iterate\<close>.
\<close>

datatype TaskStatus = TaskStatus_complete | TaskStatus_incomplete | TaskStatus_iterate

text \<open>
  The fields a solver task addresses by name. The solver registers \<open>res\<close>,
  \<open>res0\<close>, \<open>vk\<close>, \<open>pk\<close>, \<open>tk\<close> with \<open>AddField\<close> under names
  made distinct by the solver counter; \<open>rhs_name\<close>, \<open>sol_name\<close> and
  \<open>spm_name\<close> are the package's "rhs", "potential" and "poisson\_sparse\_matrix"
  (\<open>Spm n\<close> is component \<open>n\<close> of the latter); \<open>Density\<close> is "density".
  Distinct names are distinct constructors.
\<close>

datatype fld = Res | Res0 | Vk | Pk | Tk | Rhs | Sol | Spm nat | Density

text \<open>
  A cell \<open>(b, k, j, i)\<close>: block and the three indices.
\<close>

type_synonym cell = "nat \<times> int \<times> int \<times> int"

text \<open>
  \<open>IndexRange\<close> with its members \<open>s\<close> and \<open>e\<close>.
\<close>

record IndexRange =
  range_s :: int
  range_e :: int

text \<open>
  \<open>MeshData<Real>\<close> as far as the tasks read it: the number of blocks
  \<open>v.GetDim(5)\<close> of a pack over it, the interior bounds, \<open>v.GetNdim()\<close>, the
  coordinate spacings \<open>coords.Dx(dir)\<close>, the upper pack offset
  \<open>imap["poisson_sparse_matrix"].second\<close> (negative when the field is not there), and
  the field values \<open>v(b, n, k, j, i)\<close> as \<open>var u (b, k, j, i) n\<close>.
\<close>

record MeshData =
  GetDim5 :: nat
  GetBoundsI :: IndexRange
  GetBoundsJ :: IndexRange
  GetBoundsK :: IndexRange
  GetNdim :: int
  Dx :: "int \<Rightarrow> real"
  isp_hi :: int
  var :: "cell \<Rightarrow> fld \<Rightarrow> real"

text \<open>
  The iteration space \<open>0..nb-1, kb.s..kb.e, jb.s..jb.e, ib.s..ib.e\<close> in loop-nest
  order.
\<close>

definition interior_cells :: "nat \<Rightarrow> MeshData \<Rightarrow> cell list" where
  "interior_cells nb u =
     List.product [0..<nb]
       (List.product [range_s (GetBoundsK u)..range_e (GetBoundsK u)]
         (List.product [range_s (GetBoundsJ u)..range_e (GetBoundsJ u)]
                       [range_s (GetBoundsI u)..range_e (GetBoundsI u)]))"

text \<open>
  The iteration space of a loop over the blocks of \<open>u\<close> itself.
\<close>

definition interior :: "MeshData \<Rightarrow> cell list" where
  "interior u = interior_cells (GetDim5 u) u"

text \<open>
  The two operations on \<open>Real\<close> that have no real value: a quotient with denominator
  zero and \<open>std::sqrt\<close> of a negative number.
\<close>

datatype solver_error = DivisionByZero | SqrtOfNegative

text \<open>
  The mutable members of \<open>BiCGStabSolver\<close> (lines 442-454); an \<open>AllReduce<Real>\<close>
  is its \<open>val\<close>. \<open>alpha\<close> is assigned in \<open>InitializeBiCGStab\<close> and read in
  \<open>Compute_pk\<close>.
\<close>

record BiCGStabSolver =
  error_tol :: real
  bicgstab_cntr :: int
  rhoi_old :: real
  alpha :: real
  omega :: real
  global_res0 :: real
  global_res :: real
  rhoi :: real
  r0_dot_vk :: real
  t_dot_s :: real
  t_dot_t :: real

text \<open>
  "initialize some shared state" of \<open>CreateTaskList\<close> (lines 106-113).
\<close>

definition shared_state_init :: "BiCGStabSolver \<Rightarrow> BiCGStabSolver" where
  "shared_state_init sv = sv\<lparr>bicgstab_cntr := 0, global_res0 := 0, global_res := 0,
       rhoi := 0, r0_dot_vk := 0, t_dot_s := 0, t_dot_t := 0\<rparr>"

text \<open>
  \<open>InitializeBiCGStab\<close> (lines 229-264). \<open>gres0\<close> is passed in and returned.
  \<open>u\<close> and \<open>du\<close> are modelled as separate objects.
\<close>

definition InitializeBiCGStab ::
  "BiCGStabSolver \<Rightarrow> MeshData \<Rightarrow> MeshData \<Rightarrow> real
     \<Rightarrow> BiCGStabSolver \<times> MeshData \<times> MeshData \<times> real" where
  "InitializeBiCGStab sv u du gres0 =
     (let sv' = sv\<lparr>rhoi_old := 1, alpha := 1, omega := 1\<rparr>;
          (v, dv, err) =
            fold (\<lambda>c (v, dv, lerr).
                    let w1 = (v c)(Res := v c Rhs);
                        w2 = w1(Res0 := w1 Rhs);
                        lerr' = lerr + w2 Rhs;
                        w3 = w2(Vk := 0);
                        w4 = w3(Pk := 0);
                        d = (dv c)(Sol := 0)
                    in (v(c := w4), dv(c := d), lerr'))
                 (interior u) (var u, var du, 0)
      in (sv', u\<lparr>var := v\<rparr>, du\<lparr>var := dv\<rparr>, gres0 + err))"

text \<open>
  \<open>DotProduct\<close> (lines 266-284); \<open>reduce_sum\<close> is passed in and returned.
\<close>

definition DotProduct :: "MeshData \<Rightarrow> fld \<Rightarrow> fld \<Rightarrow> real \<Rightarrow> real" where
  "DotProduct u vec1 vec2 reduce_sum =
     (let gsum = fold (\<lambda>c lsum. lsum + var u c vec1 * var u c vec2) (interior u) 0
      in reduce_sum + gsum)"

text \<open>
  \<open>Compute_pk\<close> (lines 286-309).
\<close>

definition Compute_pk ::
  "BiCGStabSolver \<Rightarrow> MeshData \<Rightarrow> solver_error + BiCGStabSolver \<times> MeshData" where
  "Compute_pk sv u =
     (if rhoi_old sv = 0 \<or> omega sv = 0 then Inl DivisionByZero
      else
        let beta = (rhoi sv / rhoi_old sv) * (alpha sv / omega sv);
            sv' = sv\<lparr>rhoi_old := rhoi sv\<rparr>;
            w = omega sv';
            v = fold (\<lambda>c v. v(c := (v c)(Pk := v c Res + beta * (v c Pk - w * v c Vk))))
                  (interior u) (var u)
        in Inr (sv', u\<lparr>var := v\<rparr>))"

text \<open>
  \<open>MatVec\<close> (lines 311-330). \<open>sp_accessor.MatVec\<close> is a parameter:
  \<open>solvers/solver_utils.hpp\<close> is not among the sources.
\<close>

definition MatVec ::
  "((cell \<Rightarrow> fld \<Rightarrow> real) \<Rightarrow> fld \<Rightarrow> cell \<Rightarrow> real) \<Rightarrow> MeshData \<Rightarrow> fld \<Rightarrow> fld \<Rightarrow> MeshData" where
  "MatVec sp_accessor_MatVec u in_vec out_vec =
     (let v = fold (\<lambda>c v. v(c := (v c)(out_vec := sp_accessor_MatVec v in_vec c)))
                (interior u) (var u)
      in u\<lparr>var := v\<rparr>)"

text \<open>
  \<open>Update_h\<close> (lines 332-347). Both packs are taken from \<open>u\<close>; \<open>du\<close> is not
  used. The solver is returned as it was: \<open>a\<close> is a local.
\<close>

definition Update_h ::
  "BiCGStabSolver \<Rightarrow> MeshData \<Rightarrow> MeshData \<Rightarrow> solver_error + BiCGStabSolver \<times> MeshData" where
  "Update_h sv u du =
     (if r0_dot_vk sv = 0 then Inl DivisionByZero
      else
        let a = rhoi sv / r0_dot_vk sv;
            v = fold (\<lambda>c v. v(c := (v c)(Sol := v c Sol + a * v c Pk))) (interior u) (var u)
        in Inr (sv, u\<lparr>var := v\<rparr>))"

text \<open>
  \<open>Update_s\<close> (lines 348-365).
\<close>

definition Update_s ::
  "BiCGStabSolver \<Rightarrow> MeshData \<Rightarrow> solver_error + BiCGStabSolver \<times> MeshData" where
  "Update_s sv u =
     (if r0_dot_vk sv = 0 then Inl DivisionByZero
      else
        let a = rhoi sv / r0_dot_vk sv;
            v = fold (\<lambda>c v. v(c := (v c)(Res := v c Res - a * v c Vk))) (interior u) (var u)
        in Inr (sv, u\<lparr>var := v\<rparr>))"

text \<open>
  \<open>OmegaDotProd\<close> (lines 367-393); the pack is \<open>{tk, res}\<close>, so index 0 is
  \<open>tk\<close> and index 1 is \<open>res\<close>. Both accumulators are passed in and returned.
\<close>

definition OmegaDotProd :: "MeshData \<Rightarrow> real \<Rightarrow> real \<Rightarrow> real \<times> real" where
  "OmegaDotProd u t_dot_s_in t_dot_t_in =
     (let ts_sum = fold (\<lambda>c lsum. lsum + var u c Tk * var u c Res) (interior u) 0;
          t_dot_s_out = t_dot_s_in + ts_sum;
          tt_sum = fold (\<lambda>c lsum. lsum + var u c Tk * var u c Tk) (interior u) 0;
          t_dot_t_out = t_dot_t_in + tt_sum
      in (t_dot_s_out, t_dot_t_out))"

text \<open>
  \<open>Update_x_res\<close> (lines 395-418). Both packs are taken from \<open>u\<close>.
\<close>

definition Update_x_res ::
  "BiCGStabSolver \<Rightarrow> MeshData \<Rightarrow> MeshData \<Rightarrow> real
     \<Rightarrow> solver_error + BiCGStabSolver \<times> MeshData \<times> real" where
  "Update_x_res sv u du gres =
     (if t_dot_t sv = 0 then Inl DivisionByZero
      else
        let sv' = sv\<lparr>omega := t_dot_s sv / t_dot_t sv\<rparr>;
            w = omega sv';
            (v, err) =
              fold (\<lambda>c (v, lerr).
                      let w1 = (v c)(Sol := v c Sol + w * v c Res);
                          w2 = w1(Res := w1 Res - w * w1 Tk)
                      in (v(c := w2), lerr + w2 Res * w2 Res))
                   (interior u) (var u, 0)
        in Inr (sv', u\<lparr>var := v\<rparr>, gres + err))"

text \<open>
  \<open>std::sqrt\<close>.
\<close>

definition std_sqrt :: "real \<Rightarrow> solver_error + real" where
  "std_sqrt x = (if x < 0 then Inl SqrtOfNegative else Inr (sqrt x))"

text \<open>
  \<open>CheckConvergence\<close> (lines 420-440). The console output is left out.
\<close>

definition CheckConvergence ::
  "BiCGStabSolver \<Rightarrow> int \<Rightarrow> bool \<Rightarrow> solver_error + BiCGStabSolver \<times> TaskStatus" where
  "CheckConvergence sv i report =
     (if i \<noteq> 0 then Inr (sv, TaskStatus_complete)
      else
        let sv1 = sv\<lparr>bicgstab_cntr := bicgstab_cntr sv + 1\<rparr> in
        case (if bicgstab_cntr sv1 = 1 then std_sqrt (global_res0 sv1)
              else Inr (global_res0 sv1)) of
          Inl err \<Rightarrow> Inl err
        | Inr g0 \<Rightarrow>
            let sv2 = sv1\<lparr>global_res0 := g0\<rparr> in
            case (if report then std_sqrt (global_res sv2) else Inr (global_res sv2)) of
              Inl err \<Rightarrow> Inl err
            | Inr g \<Rightarrow>
                let sv3 = sv2\<lparr>global_res := g\<rparr> in
                if global_res0 sv3 = 0 then Inl DivisionByZero
                else
                  let converged = (global_res sv3 / global_res0 sv3 < error_tol sv3);
                      sv4 = sv3\<lparr>global_res := 0, rhoi := 0, r0_dot_vk := 0,
                                t_dot_s := 0, t_dot_t := 0\<rparr>
                  in Inr (sv4, if converged then TaskStatus_complete else TaskStatus_iterate))"

text \<open>
  Modelled from the spec: \<open>SparseMatrixAccessor::MatVec\<close>
  (\<open>solvers/solver_utils.hpp\<close> is not among the sources). The product is the sum of
  coefficient(offset) times operand(cell + offset) over a fixed list of index offsets,
  the coefficients being the components of the matrix field. It is used only to
  instantiate the parameter of \<open>MatVec\<close> in one example.
\<close>

definition SparseMatrixAccessor_MatVec ::
  "(int \<times> int \<times> int) list \<Rightarrow> (cell \<Rightarrow> fld \<Rightarrow> real) \<Rightarrow> fld \<Rightarrow> cell \<Rightarrow> real" where
  "SparseMatrixAccessor_MatVec offsets v in_vec =
     (\<lambda>(b, k, j, i).
        sum_list (map (\<lambda>(n, (di, dj, dk)). v (b, k, j, i) (Spm n) * v (b, k + dk, j + dj, i + di) in_vec)
                      (enumerate 0 offsets)))"

text \<open>
  The seven-point offsets of \<open>poisson_package::Initialize\<close> (poisson\_cg\_package.cpp,
  lines 65-66), as triples \<open>(di, dj, dk)\<close>.
\<close>

definition poisson_offsets :: "(int \<times> int \<times> int) list" where
  "poisson_offsets = [(-1, 0, 0), (0, 0, 0), (1, 0, 0), (0, -1, 0), (0, 1, 0), (0, 0, -1), (0, 0, 1)]"

text \<open>
  The tasks of partition 0 from the start of a run up to \<open>Update_h\<close> of the first
  cycle, in the order the dependencies of \<open>CreateTaskList\<close> fix, on one rank and with
  one partition (where the reductions leave the accumulators as they are):
  shared state, \<open>init_bicgstab\<close>, \<open>get_rhoi\<close>, \<open>update_pk\<close>, \<open>get_v\<close>,
  \<open>get_r0dotv\<close>, \<open>get_h\<close>. The ghost exchange between \<open>update_pk\<close> and
  \<open>get_v\<close> writes no interior cell.
\<close>

definition first_cycle_to_h ::
  "((cell \<Rightarrow> fld \<Rightarrow> real) \<Rightarrow> fld \<Rightarrow> cell \<Rightarrow> real) \<Rightarrow> BiCGStabSolver \<Rightarrow> MeshData \<Rightarrow> MeshData
     \<Rightarrow> solver_error + BiCGStabSolver \<times> MeshData" where
  "first_cycle_to_h sp_accessor_MatVec sv u du =
     (let sv0 = shared_state_init sv;
          (sv1, u1, du1, g0) = InitializeBiCGStab sv0 u du (global_res0 sv0);
          sv2 = sv1\<lparr>global_res0 := g0\<rparr>;
          sv3 = sv2\<lparr>rhoi := DotProduct u1 Res0 Res (rhoi sv2)\<rparr>
      in case Compute_pk sv3 u1 of
           Inl err \<Rightarrow> Inl err
         | Inr (sv4, u2) \<Rightarrow>
             let u3 = MatVec sp_accessor_MatVec u2 Pk Vk;
                 sv5 = sv4\<lparr>r0_dot_vk := DotProduct u3 Res0 Vk (r0_dot_vk sv4)\<rparr>
             in Update_h sv5 u3 du1)"

section \<open>Poisson package tasks\<close>

text \<open>
  How a task of the package fails: the \<open>std::runtime_error\<close> thrown by
  \<open>PARTHENON_REQUIRE_THROWS(dx == dy, ...)\<close>, and the two ways a lookup
  \<open>pkg->Param<T>(key)\<close> yields no value of type \<open>T\<close>.
\<close>

datatype poisson_error = NonUniformGridSpacing | ParamNotFound string | ParamWrongType string

text \<open>
  The \<open>Jacobi\<close> member of a stencil or of a sparse accessor, as a function of the pack,
  the field of the unknown, the cell and the right-hand side
  (\<open>solvers/solver_utils.hpp\<close> is not among the sources).
\<close>

type_synonym Jacobi_fn = "(cell \<Rightarrow> fld \<Rightarrow> real) \<Rightarrow> fld \<Rightarrow> cell \<Rightarrow> real \<Rightarrow> real"

text \<open>
  Modelled from the spec: a value held by the parameter collaborator
  (\<open>interface/params.hpp\<close> is not among the sources): a stencil, a sparse accessor, or
  a value of any other type.
\<close>

datatype param = Param_Stencil Jacobi_fn | Param_SparseMatrixAccessor Jacobi_fn | Param_other

text \<open>
  Modelled from the spec: the parameters of a package, by key.
\<close>

type_synonym Params = "string \<rightharpoonup> param"

text \<open>
  Modelled from the spec: \<open>pkg->Param<Stencil_t>(key)\<close>. A key that was never added
  has no value to return, and neither has a key that holds a value of another type; both
  end the call.
\<close>

definition Param_Stencil_t :: "Params \<Rightarrow> string \<Rightarrow> poisson_error + Jacobi_fn" where
  "Param_Stencil_t pkg key =
     (case pkg key of
        None \<Rightarrow> Inl (ParamNotFound key)
      | Some (Param_Stencil stencil) \<Rightarrow> Inr stencil
      | Some _ \<Rightarrow> Inl (ParamWrongType key))"

text \<open>
  Modelled from the spec: \<open>pkg->Param<SparseMatrixAccessor>(key)\<close>, in the same way.
\<close>

definition Param_SparseMatrixAccessor_t :: "Params \<Rightarrow> string \<Rightarrow> poisson_error + Jacobi_fn" where
  "Param_SparseMatrixAccessor_t pkg key =
     (case pkg key of
        None \<Rightarrow> Inl (ParamNotFound key)
      | Some (Param_SparseMatrixAccessor sp_accessor) \<Rightarrow> Inr sp_accessor
      | Some _ \<Rightarrow> Inl (ParamWrongType key))"

text \<open>
  The keys that \<open>poisson_package::Initialize\<close> adds with \<open>AddParam\<close>
  (poisson\_cg\_package.cpp, lines 38-95), whichever way \<open>use_stencil\<close> is set. None
  is a stencil or a sparse accessor; the line that would add "sparse\_accessor" (line 93)
  is commented out, and no line adds "stencil".
\<close>

definition Initialize_Params :: Params where
  "Initialize_Params =
     map_of (map (\<lambda>key. (key, Param_other))
       [''max_iterations'', ''check_interval'', ''error_tolerance'',
        ''fail_without_convergence'', ''warn_without_convergence'',
        ''use_jacobi'', ''use_stencil'', ''spm_name'', ''rhs_name'', ''sol_name'',
        ''cg_solver''])"

text \<open>
  Modelled from the spec: \<open>X1DIR\<close> is declared in \<open>defs.hpp\<close>, which is not among
  the sources. The coordinate directions are numbered 1, 2, 3, so that the loop from
  \<open>X2DIR\<close> to \<open>ndim\<close> visits the axes after the first up to the problem dimension.
\<close>

definition X1DIR :: int where "X1DIR = 1"

text \<open>
  Modelled from the spec: \<open>X2DIR\<close>, the second coordinate direction (see \<open>X1DIR\<close>).
\<close>

definition X2DIR :: int where "X2DIR = 2"

text \<open>
  The loop \<open>for (int i = X2DIR; i <= ndim; i++)\<close> with its requirement
  \<open>dx == coords.Dx(i)\<close>: it throws when some \<open>i\<close> fails the test.
\<close>

definition spacing_check :: "MeshData \<Rightarrow> bool" where
  "spacing_check u = list_all (\<lambda>i. Dx u X1DIR = Dx u i) [X2DIR..GetNdim u]"

text \<open>
  \<open>SetRHS\<close> (poisson\_cg\_package.cpp, lines 296-334). The result is the status or the
  exception, and the mesh data as the call leaves it.
\<close>

definition SetRHS :: "MeshData \<Rightarrow> (poisson_error + TaskStatus) \<times> MeshData" where
  "SetRHS u =
     (if \<not> spacing_check u then (Inl NonUniformGridSpacing, u)
      else
        let dV = Dx u X1DIR ^ nat (GetNdim u);
            v = fold (\<lambda>c v. v(c := (v c)(Rhs := - dV * v c Density))) (interior u) (var u)
        in (Inr TaskStatus_complete, u\<lparr>var := v\<rparr>))"

text \<open>
  \<open>SumMass\<close> (lines 141-174); \<open>reduce_sum\<close> is passed in and returned. It writes
  no field.
\<close>

definition SumMass :: "MeshData \<Rightarrow> real \<Rightarrow> (poisson_error + TaskStatus) \<times> real" where
  "SumMass u reduce_sum =
     (if \<not> spacing_check u then (Inl NonUniformGridSpacing, reduce_sum)
      else
        let dx = Dx u X1DIR;
            total = fold (\<lambda>c sum. sum + var u c Density * dx ^ nat (GetNdim u)) (interior u) 0
        in (Inr TaskStatus_complete, reduce_sum + total))"

text \<open>
  \<open>UpdatePhi\<close> (lines 176-247), with the parameters \<open>pkg\<close> of the package
  "poisson\_package". After the spacing test it fetches "stencil" (when there is no matrix
  field) or "sparse\_accessor" from the package, before the first kernel. The last loop
  runs over the blocks of \<open>dv\<close>.
\<close>

definition UpdatePhi ::
  "Params \<Rightarrow> MeshData \<Rightarrow> MeshData \<Rightarrow> (poisson_error + TaskStatus) \<times> MeshData \<times> MeshData" where
  "UpdatePhi pkg u du =
     (if \<not> spacing_check u then (Inl NonUniformGridSpacing, u, du)
      else
        let dV = Dx u X1DIR ^ nat (GetNdim u);
            dv_result =
              (if isp_hi u < 0
               then (case Param_Stencil_t pkg ''stencil'' of
                       Inl err \<Rightarrow> Inl err
                     | Inr stencil \<Rightarrow>
                         Inr (fold (\<lambda>c dv. let rhs = dV * var u c Density;
                                                phi_new = stencil (var u) Sol c rhs
                                            in dv(c := (dv c)(Sol := phi_new - var u c Sol)))
                                (interior u) (var du)))
               else (case Param_SparseMatrixAccessor_t pkg ''sparse_accessor'' of
                       Inl err \<Rightarrow> Inl err
                     | Inr sp_accessor \<Rightarrow>
                         Inr (fold (\<lambda>c dv. let rhs = dV * var u c Density;
                                                phi_new = sp_accessor (var u) Sol c rhs
                                            in dv(c := (dv c)(Sol := phi_new - var u c Sol)))
                                (interior u) (var du))))
        in case dv_result of
             Inl err \<Rightarrow> (Inl err, u, du)
           | Inr dv \<Rightarrow>
               let v = fold (\<lambda>c v. v(c := (v c)(Sol := v c Sol + dv c Sol)))
                         (interior_cells (GetDim5 du) u) (var u)
               in (Inr TaskStatus_complete, u\<lparr>var := v\<rparr>, du\<lparr>var := dv\<rparr>))"

text \<open>
  Example data: one block with the single interior cell \<open>(0, 0, 0, 0)\<close>, \<open>nd\<close>
  dimensions, spacings \<open>dx\<close>, no matrix field, and the same field values \<open>w\<close>
  at every cell.
\<close>

definition one_cell_mesh :: "int \<Rightarrow> (int \<Rightarrow> real) \<Rightarrow> (fld \<Rightarrow> real) \<Rightarrow> MeshData" where
  "one_cell_mesh nd dx w =
     \<lparr>GetDim5 = 1,
      GetBoundsI = \<lparr>range_s = 0, range_e = 0\<rparr>,
      GetBoundsJ = \<lparr>range_s = 0, range_e = 0\<rparr>,
      GetBoundsK = \<lparr>range_s = 0, range_e = 0\<rparr>,
      GetNdim = nd, Dx = dx, isp_hi = - 1, var = (\<lambda>c. w)\<rparr>"

text \<open>
  Example data: the scalars at \<open>Update_h\<close> of a first cycle with
  \<open>rho_i = 6\<close> and \<open>r0 . v = 3\<close>.
\<close>

definition example_solver :: BiCGStabSolver where
  "example_solver =
     \<lparr>error_tol = 3 / 10, bicgstab_cntr = 0, rhoi_old = 6, alpha = 1, omega = 1,
      global_res0 = 0, global_res = 0, rhoi = 6, r0_dot_vk = 3, t_dot_s = 0, t_dot_t = 0\<rparr>"

text \<open>
  Example data: one cell with \<open>r = 1\<close>, \<open>p = 3\<close>, \<open>v = 1\<close>.
\<close>

definition pk_example_mesh :: MeshData where
  "pk_example_mesh =
     one_cell_mesh 1 (\<lambda>d. 1) (\<lambda>n. if n = Res then 1 else if n = Pk then 3 else if n = Vk then 1 else 0)"

text \<open>
  The package holds the parameter that \<open>UpdatePhi\<close> fetches for this mesh data.
\<close>

definition Param_registered :: "Params \<Rightarrow> MeshData \<Rightarrow> bool" where
  "Param_registered pkg u =
     (if isp_hi u < 0
      then (case pkg ''stencil'' of Some (Param_Stencil stencil) \<Rightarrow> True | _ \<Rightarrow> False)
      else (case pkg ''sparse_accessor'' of
              Some (Param_SparseMatrixAccessor sp_accessor) \<Rightarrow> True | _ \<Rightarrow> False))"

text \<open>
  Example data: one cell in two dimensions with spacing 1/2 on both axes and no matrix
  field.
\<close>

definition uniform_example_mesh :: MeshData where
  "uniform_example_mesh = one_cell_mesh 2 (\<lambda>d. 1 / 2) (\<lambda>n. 5)"

section \<open>The task list built by the solver\<close>

text \<open>
  Modelled from the spec: a \<open>TaskID\<close> (\<open>tasks/task_id.hpp\<close> is not among the
  sources) is a set of task identities, here the list of their numbers; \<open>a | b\<close> is
  \<open>a @ b\<close>.
\<close>

type_synonym TaskID = "nat list"

text \<open>
  The six shared reduction handles of the solver.
\<close>

datatype AllReduce_handle = GlobalRes0 | Rhoi | R0DotVk | TDotS | TDotT | GlobalRes

text \<open>
  The callable of a task together with the arguments that tell tasks apart.
\<close>

datatype task_fn =
    F_InitializeBiCGStab
  | F_DotProduct fld fld AllReduce_handle
  | F_StartReduce AllReduce_handle
  | F_CheckReduce AllReduce_handle
  | F_Compute_pk
  | F_StartReceiving
  | F_SendBoundaryBuffers
  | F_ReceiveBoundaryBuffers
  | F_SetBoundaries
  | F_ClearBoundary
  | F_MatVec fld fld
  | F_Update_h
  | F_Update_s
  | F_OmegaDotProd
  | F_Update_x_res
  | F_CheckConvergence int bool

text \<open>
  How a task was added: by \<open>tl.AddTask\<close>, by \<open>solver.AddTask\<close> (inside the
  iteration) or by \<open>solver.SetCompletionTask\<close>.
\<close>

datatype task_kind = Single | Iterative | Completion

text \<open>
  Modelled from the spec: a task has an identity, a dependency set and a callable
  (\<open>tasks/task_list.hpp\<close> is not among the sources).
\<close>

record Task =
  task_id :: nat
  dependency :: TaskID
  task_fn :: task_fn
  kind :: task_kind

text \<open>
  Modelled from the spec: a task list is an ordered sequence of tasks for one partition.
  The tasks declared as regional and as global dependencies are recorded beside it.
\<close>

record TaskList =
  tasks :: "Task list"
  regional :: "nat list"
  global :: "nat list"

text \<open>
  \<open>TaskID none(0)\<close>: no dependency.
\<close>

definition none :: TaskID where
  "none = []"

text \<open>
  Modelled from the spec: \<open>AddTask\<close> appends a task with a fresh identity and returns
  that identity.
\<close>

definition AddTask :: "TaskID \<Rightarrow> task_fn \<Rightarrow> task_kind \<Rightarrow> TaskList \<Rightarrow> TaskID \<times> TaskList" where
  "AddTask dep f k tlist =
     (let new_id = Suc (length (tasks tlist))
      in ([new_id],
          tlist\<lparr>tasks := tasks tlist @ [\<lparr>task_id = new_id, dependency = dep, task_fn = f, kind = k\<rparr>]\<rparr>))"

text \<open>
  Modelled from the spec: \<open>tr.AddRegionalDependencies(reg.ID(), i, t)\<close> records \<open>t\<close>
  as a regional dependency.
\<close>

definition AddRegionalDependencies :: "TaskID \<Rightarrow> TaskList \<Rightarrow> TaskList" where
  "AddRegionalDependencies t tlist = tlist\<lparr>regional := regional tlist @ t\<rparr>"

text \<open>
  Modelled from the spec: \<open>tr.AddGlobalDependencies(reg.ID(), i, t)\<close> records \<open>t\<close>
  as a global dependency.
\<close>

definition AddGlobalDependencies :: "TaskID \<Rightarrow> TaskList \<Rightarrow> TaskList" where
  "AddGlobalDependencies t tlist = tlist\<lparr>global := global tlist @ t\<rparr>"

text \<open>
  The private \<open>CreateTaskList\<close> (lines 98-227) for partition \<open>i\<close>, adding to the
  list \<open>tr[i]\<close>; \<open>begin_id\<close> is its parameter \<open>begin\<close> and \<open>tlist\<close> its
  local \<open>tl\<close>. The source declares \<open>recv1\<close> twice (lines 148 and 185) and then
  reads an undeclared \<open>recv2\<close> (line 188): the second declaration is read as
  \<open>recv2\<close>. In the same way the second declaration of \<open>finish_global_r0dotv\<close>
  (line 203) is read as the \<open>finish_global_tdots\<close> that line 213 uses. Everything else
  is as written, including the dependencies \<open>send1 | setb1\<close> of \<open>clear2\<close> and the
  tasks that \<open>start_global_r0dotv\<close> and \<open>start_global_res\<close> name when
  \<open>i\<close> is not 0.
\<close>

definition CreateTaskList :: "TaskID \<Rightarrow> int \<Rightarrow> TaskList \<Rightarrow> TaskID \<times> TaskList" where
  "CreateTaskList begin_id i tlist =
     (let (init_bicgstab, tlist) = AddTask begin_id F_InitializeBiCGStab Single tlist;
          tlist = AddRegionalDependencies init_bicgstab tlist;
          (start_global_res0, tlist) =
             (if i = 0 then AddTask init_bicgstab (F_StartReduce GlobalRes0) Single tlist
              else (init_bicgstab, tlist));
          (finish_global_res0, tlist) = AddTask start_global_res0 (F_CheckReduce GlobalRes0) Single tlist;
          (get_rhoi, tlist) = AddTask init_bicgstab (F_DotProduct Res0 Res Rhoi) Iterative tlist;
          tlist = AddRegionalDependencies get_rhoi tlist;
          (start_global_rhoi, tlist) =
             (if i = 0 then AddTask get_rhoi (F_StartReduce Rhoi) Iterative tlist
              else (get_rhoi, tlist));
          (finish_global_rhoi, tlist) = AddTask start_global_rhoi (F_CheckReduce Rhoi) Iterative tlist;
          (update_pk, tlist) = AddTask finish_global_rhoi F_Compute_pk Iterative tlist;
          (start_recv1, tlist) = AddTask none F_StartReceiving Iterative tlist;
          (send1, tlist) = AddTask update_pk F_SendBoundaryBuffers Iterative tlist;
          (recv1, tlist) = AddTask start_recv1 F_ReceiveBoundaryBuffers Iterative tlist;
          (setb1, tlist) = AddTask (recv1 @ update_pk) F_SetBoundaries Iterative tlist;
          (clear1, tlist) = AddTask (send1 @ setb1) F_ClearBoundary Iterative tlist;
          (get_v, tlist) = AddTask clear1 (F_MatVec Pk Vk) Iterative tlist;
          (get_r0dotv, tlist) = AddTask get_v (F_DotProduct Res0 Vk R0DotVk) Iterative tlist;
          tlist = AddRegionalDependencies get_r0dotv tlist;
          (start_global_r0dotv, tlist) =
             (if i = 0 then AddTask get_r0dotv (F_StartReduce R0DotVk) Iterative tlist
              else (get_rhoi, tlist));
          (finish_global_r0dotv, tlist) = AddTask start_global_r0dotv (F_CheckReduce R0DotVk) Iterative tlist;
          (get_h, tlist) = AddTask finish_global_r0dotv F_Update_h Iterative tlist;
          (get_s, tlist) = AddTask finish_global_r0dotv F_Update_s Iterative tlist;
          (start_recv2, tlist) = AddTask clear1 F_StartReceiving Iterative tlist;
          (send2, tlist) = AddTask get_s F_SendBoundaryBuffers Iterative tlist;
          (recv2, tlist) = AddTask start_recv2 F_ReceiveBoundaryBuffers Iterative tlist;
          (setb2, tlist) = AddTask (recv2 @ get_s) F_SetBoundaries Iterative tlist;
          (clear2, tlist) = AddTask (send1 @ setb1) F_ClearBoundary Iterative tlist;
          (get_t, tlist) = AddTask clear2 (F_MatVec Res Tk) Iterative tlist;
          (get_tdots, tlist) = AddTask get_t F_OmegaDotProd Iterative tlist;
          tlist = AddRegionalDependencies get_tdots tlist;
          (start_global_tdots, tlist) =
             (if i = 0 then AddTask get_tdots (F_StartReduce TDotS) Iterative tlist
              else (get_tdots, tlist));
          (finish_global_tdots, tlist) = AddTask start_global_tdots (F_CheckReduce TDotS) Iterative tlist;
          (start_global_tdott, tlist) =
             (if i = 0 then AddTask get_tdots (F_StartReduce TDotT) Iterative tlist
              else (get_tdots, tlist));
          (finish_global_tdott, tlist) = AddTask start_global_tdott (F_CheckReduce TDotT) Iterative tlist;
          (update_x, tlist) = AddTask (finish_global_tdots @ finish_global_tdott) F_Update_x_res Iterative tlist;
          tlist = AddRegionalDependencies update_x tlist;
          (start_global_res, tlist) =
             (if i = 0 then AddTask update_x (F_StartReduce GlobalRes) Iterative tlist
              else (get_tdots, tlist));
          (finish_global_res, tlist) = AddTask start_global_res (F_CheckReduce GlobalRes) Iterative tlist;
          (check, tlist) = AddTask finish_global_res (F_CheckConvergence i True) Completion tlist;
          tlist = AddGlobalDependencies check tlist
      in (check, tlist))"

text \<open>
  A list with no task yet.
\<close>

definition empty_TaskList :: TaskList where
  "empty_TaskList = \<lparr>tasks = [], regional = [], global = []\<rparr>"

text \<open>
  The tasks that \<open>CreateTaskList\<close> appends to a list.
\<close>

definition added_tasks :: "TaskID \<Rightarrow> int \<Rightarrow> TaskList \<Rightarrow> Task list" where
  "added_tasks begin_id i tlist = drop (length (tasks tlist)) (tasks (snd (CreateTaskList begin_id i tlist)))"

text \<open>
  The task of a list that accumulates the local contribution into a handle: the task
  that \<open>CreateTaskList\<close> gives the address of that handle's \<open>val\<close>.
\<close>

definition corresponding_task :: "AllReduce_handle \<Rightarrow> task_fn" where
  "corresponding_task h = (case h of
       GlobalRes0 \<Rightarrow> F_InitializeBiCGStab
     | Rhoi \<Rightarrow> F_DotProduct Res0 Res Rhoi
     | R0DotVk \<Rightarrow> F_DotProduct Res0 Vk R0DotVk
     | TDotS \<Rightarrow> F_OmegaDotProd
     | TDotT \<Rightarrow> F_OmegaDotProd
     | GlobalRes \<Rightarrow> F_Update_x_res)"

text \<open>
  The dependency of \<open>t\<close> is exactly one task of \<open>ts\<close>, and that task's callable
  satisfies \<open>P\<close>.
\<close>

definition depends_on_one :: "Task list \<Rightarrow> Task \<Rightarrow> (task_fn \<Rightarrow> bool) \<Rightarrow> bool" where
  "depends_on_one ts t P =
     list_ex (\<lambda>t'. dependency t = [task_id t'] \<and> P (task_fn t')) ts"

section \<open>Properties of the block timer\<close>

lemma unat_uint64_max: "unat uint64_max = 2 ^ 64 - 1"
  by (simp add: uint64_max_def unsigned_minus_1_eq_mask mask_eq_exp_minus_1)

lemma unat_uint64_max_minus: "unat (uint64_max - a) = 2 ^ 64 - 1 - unat a"
proof -
  have "a \<le> uint64_max" by (simp add: uint64_max_def)
  then have "unat (uint64_max - a) = unat uint64_max - unat a"
    by (rule unat_sub)
  then show ?thesis by (simp only: unat_uint64_max)
qed

text \<open>
  Claim C10. For every pair of 64-bit start and stop readings, the value the destructor
  adds to the cost accumulator is non-negative. When the stop reading is below the start
  reading it is the distance from start to the largest 64-bit value plus the stop
  reading; otherwise it is the plain difference.
\<close>

theorem BlockTimer_diff_nonneg:
  "0 \<le> BlockTimer_diff start stop \<and>
   BlockTimer_destroy cost start stop - cost = BlockTimer_diff start stop \<and>
   BlockTimer_diff start stop =
     (if unat stop < unat start
      then real (2 ^ 64 - 1 - unat start) + real (unat stop)
      else real (unat stop - unat start))"
proof -
  have a: "0 \<le> BlockTimer_diff start stop"
    unfolding BlockTimer_diff_def
    by (cases "stop < start") (simp_all only: if_True if_False add_nonneg_nonneg of_nat_0_le_iff)
  have b: "BlockTimer_destroy cost start stop - cost = BlockTimer_diff start stop"
    by (simp add: BlockTimer_destroy_def)
  have c: "BlockTimer_diff start stop =
     (if unat stop < unat start
      then real (2 ^ 64 - 1 - unat start) + real (unat stop)
      else real (unat stop - unat start))"
  proof (cases "stop < start")
    case True
    then have "unat stop < unat start" by (simp add: word_less_nat_alt)
    with True show ?thesis
      unfolding BlockTimer_diff_def by (simp only: if_True unat_uint64_max_minus)
  next
    case False
    then have le: "start \<le> stop" by simp
    have n: "\<not> unat stop < unat start"
      using False by (simp add: word_less_nat_alt)
    have "unat (stop - start) = unat stop - unat start"
      using le by (rule unat_sub)
    with False n show ?thesis
      unfolding BlockTimer_diff_def by (simp only: if_False)
  qed
  from a b c show ?thesis by blast
qed

section \<open>Properties of variable packs\<close>

lemma length_concat_const: "(\<And>x. x \<in> set xs \<Longrightarrow> length (f x) = n) \<Longrightarrow> length (concat (map f xs)) = length xs * n"
  by (induction xs) auto

lemma length_slices: "length (slices v) = ncomp v"
  unfolding slices_def ncomp_def
  by (simp add: length_concat_const)

lemma count_size_fold: "fold (\<lambda>v vsize. vsize + dim6 v * dim5 v * dim4 v) vars a = a + sum_list (map ncomp vars)"
  by (induction vars arbitrary: a) (auto simp: ncomp_def)

lemma count_size_eq: "count_size vars = sum_list (map ncomp vars)"
  by (simp add: count_size_def count_size_fold)

lemma count_nvars_fold: "fold (\<lambda>v nvars. Suc nvars) vars a = a + length vars"
  by (induction vars arbitrary: a) auto

lemma count_nvars_eq: "count_nvars vars = length vars"
  by (simp add: count_nvars_def count_nvars_fold)

lemma write_fold:
  "vi + length xs \<le> length hv \<Longrightarrow>
   fold (\<lambda>x (host_view, vindex). (host_view[vindex := x], Suc vindex)) xs (hv, vi)
     = (take vi hv @ xs @ drop (vi + length xs) hv, vi + length xs)"
proof (induction xs arbitrary: hv vi)
  case Nil
  then show ?case by simp
next
  case (Cons x xs)
  have len: "Suc vi + length xs \<le> length (hv[vi := x])" using Cons.prems by simp
  have vi: "vi < length hv" using Cons.prems by simp
  have t: "take (Suc vi) (hv[vi := x]) = take vi hv @ [x]"
    using vi by (simp add: take_Suc_conv_app_nth)
  show ?case
    using Cons.IH[OF len] t by simp
qed

lemma copy_slices_eq:
  "vi + ncomp v \<le> length hv \<Longrightarrow>
   copy_slices v (hv, vi) = (take vi hv @ slices v @ drop (vi + ncomp v) hv, vi + ncomp v)"
  unfolding copy_slices_def using write_fold[of vi "slices v" hv] by (simp add: length_slices)

lemma fold_copy_slices:
  "vi + sum_list (map ncomp vars) \<le> length hv \<Longrightarrow>
   fold copy_slices vars (hv, vi)
     = (take vi hv @ concat (map slices vars) @ drop (vi + sum_list (map ncomp vars)) hv,
        vi + sum_list (map ncomp vars))"
proof (induction vars arbitrary: hv vi)
  case Nil
  then show ?case by simp
next
  case (Cons v vars)
  let ?hv = "take vi hv @ slices v @ drop (vi + ncomp v) hv"
  have fit: "vi + ncomp v \<le> length hv" using Cons.prems by simp
  have len: "length ?hv = length hv" using fit by (simp add: length_slices)
  have rest: "(vi + ncomp v) + sum_list (map ncomp vars) \<le> length ?hv"
    using Cons.prems len by simp
  have tk: "take (vi + ncomp v) ?hv = take vi hv @ slices v"
    using fit by (simp add: length_slices)
  have dr: "drop (vi + ncomp v + sum_list (map ncomp vars)) ?hv
              = drop (vi + ncomp v + sum_list (map ncomp vars)) hv"
    using fit by (simp add: length_slices add.commute add.left_commute)
  show ?case
    using Cons.IH[OF rest] copy_slices_eq[OF fit] tk dr by (simp add: add.assoc)
qed

lemma length_los [simp]: "length (los vi vars) = length vars"
  by (induction vars arbitrary: vi) auto

lemma length_his [simp]: "length (his vi vars) = length vars"
  by (induction vars arbitrary: vi) auto

lemma take_Suc_update: "iv < length lo \<Longrightarrow> take (Suc iv) (lo[iv := x]) = take iv lo @ [x]"
  by (simp add: take_Suc_conv_app_nth)

lemma fold_index_step:
  "vi + sum_list (map ncomp vars) \<le> length hv \<Longrightarrow>
   iv + length vars \<le> length lo \<Longrightarrow> length hi = length lo \<Longrightarrow>
   fold index_step vars (hv, vi, iv, lo, hi)
     = (take vi hv @ concat (map slices vars) @ drop (vi + sum_list (map ncomp vars)) hv,
        vi + sum_list (map ncomp vars),
        iv + length vars,
        take iv lo @ los vi vars @ drop (iv + length vars) lo,
        take iv hi @ his vi vars @ drop (iv + length vars) hi)"
proof (induction vars arbitrary: hv vi iv lo hi)
  case Nil
  then show ?case by simp
next
  case (Cons v vars)
  let ?hv = "take vi hv @ slices v @ drop (vi + ncomp v) hv"
  let ?lo = "lo[iv := int vi]"
  let ?hi = "hi[iv := int (vi + ncomp v) - 1]"
  have fit: "vi + ncomp v \<le> length hv" using Cons.prems by simp
  have iv: "iv < length lo" "iv < length hi" using Cons.prems by simp_all
  have step: "index_step v (hv, vi, iv, lo, hi) = (?hv, vi + ncomp v, Suc iv, ?lo, ?hi)"
    by (simp add: index_step_def copy_slices_eq[OF fit])
  have len: "length ?hv = length hv" using fit by (simp add: length_slices)
  have p1: "(vi + ncomp v) + sum_list (map ncomp vars) \<le> length ?hv"
    using Cons.prems len by simp
  have p2: "Suc iv + length vars \<le> length ?lo" using Cons.prems by simp
  have p3: "length ?hi = length ?lo" using Cons.prems by simp
  have tk: "take (vi + ncomp v) ?hv = take vi hv @ slices v"
    using fit by (simp add: length_slices)
  have dr: "drop (vi + ncomp v + sum_list (map ncomp vars)) ?hv
              = drop (vi + ncomp v + sum_list (map ncomp vars)) hv"
    using fit by (simp add: length_slices add.commute add.left_commute)
  have tlo: "take (Suc iv) ?lo = take iv lo @ [int vi]"
    using iv by (simp add: take_Suc_update)
  have thi: "take (Suc iv) ?hi = take iv hi @ [int (vi + ncomp v) - 1]"
    using iv by (simp add: take_Suc_update)
  have "fold index_step (v # vars) (hv, vi, iv, lo, hi)
          = fold index_step vars (?hv, vi + ncomp v, Suc iv, ?lo, ?hi)"
    by (simp add: step)
  also have "\<dots> = (take (vi + ncomp v) ?hv @ concat (map slices vars)
                      @ drop (vi + ncomp v + sum_list (map ncomp vars)) ?hv,
                    vi + ncomp v + sum_list (map ncomp vars),
                    Suc iv + length vars,
                    take (Suc iv) ?lo @ los (vi + ncomp v) vars @ drop (Suc iv + length vars) ?lo,
                    take (Suc iv) ?hi @ his (vi + ncomp v) vars @ drop (Suc iv + length vars) ?hi)"
    by (rule Cons.IH[OF p1 p2 p3])
  finally show ?case
    by (simp only: tk dr tlo thi) (simp add: add.assoc)
qed

text \<open>
  \<open>MakeIndexedPack\<close> in closed form on a non-empty list: every entry of the view and of
  the index arrays is written.
\<close>

lemma MakeIndexedPack_Cons:
  "MakeIndexedPack dflt (fvar # vs) =
     Inr \<lparr>view = concat (map slices (fvar # vs)),
          dims = [dim1 fvar, dim2 fvar, dim3 fvar, sum_list (map ncomp (fvar # vs))],
          ilo = los 0 (fvar # vs), ihi = his 0 (fvar # vs)\<rparr>"
proof -
  let ?vars = "fvar # vs"
  let ?n = "sum_list (map ncomp ?vars)"
  have f: "fold index_step ?vars (replicate ?n dflt, 0, 0, replicate (length ?vars) 0, replicate (length ?vars) 0)
        = (concat (map slices ?vars), ?n, length ?vars, los 0 ?vars, his 0 ?vars)"
    using fold_index_step[of 0 ?vars "replicate ?n dflt" 0 "replicate (length ?vars) 0" "replicate (length ?vars) 0"]
    by simp
  show ?thesis
    unfolding MakeIndexedPack_def count_size_eq count_nvars_eq Let_def
    by (simp only: list.case f prod.case)
qed

lemma MakePack_Cons:
  "MakePack dflt (fvar # vs) =
     Inr \<lparr>view = concat (map slices (fvar # vs)),
          dims = [dim1 fvar, dim2 fvar, dim3 fvar, sum_list (map ncomp (fvar # vs))]\<rparr>"
proof -
  let ?vars = "fvar # vs"
  let ?n = "sum_list (map ncomp ?vars)"
  have f: "fold copy_slices ?vars (replicate ?n dflt, 0) = (concat (map slices ?vars), ?n)"
    using fold_copy_slices[of 0 ?vars "replicate ?n dflt"] by simp
  show ?thesis
    unfolding MakePack_def count_size_eq Let_def
    by (simp only: list.case f prod.case)
qed

lemma los_nth:
  "n < length vars \<Longrightarrow> los vi vars ! n = int (vi + sum_list (map ncomp (take n vars)))"
proof (induction vars arbitrary: vi n)
  case Nil
  then show ?case by simp
next
  case (Cons v vars)
  then show ?case by (cases n) (simp_all add: add.assoc)
qed

lemma his_nth:
  "n < length vars \<Longrightarrow> his vi vars ! n = int (vi + sum_list (map ncomp (take (Suc n) vars))) - 1"
proof (induction vars arbitrary: vi n)
  case Nil
  then show ?case by simp
next
  case (Cons v vars)
  then show ?case by (cases n) (simp_all add: add.assoc)
qed

lemma upto_nat_range: "[int a..int (a + len) - 1] = map int [a..<a + len]"
proof (induction len)
  case 0
  then show ?case by simp
next
  case (Suc len)
  have "[int a..int (a + Suc len) - 1] = [int a..int (a + len) - 1] @ [int (a + len)]"
    using upto_rec2[of "int a" "int (a + len)"] by simp
  then show ?case using Suc by simp
qed

lemma read_range_take_drop:
  assumes "a + len \<le> length cv"
  shows "read_range cv (int a) (int (a + len) - 1) = take len (drop a cv)"
proof -
  have "read_range cv (int a) (int (a + len) - 1) = map (\<lambda>n. cv ! nat n) (map int [a..<a + len])"
    unfolding read_range_def by (simp only: upto_nat_range)
  also have "\<dots> = map (\<lambda>n. cv ! n) [a..<a + len]"
    by (simp add: comp_def)
  also have "\<dots> = take len (drop a cv)"
    using assms by (intro nth_equalityI) (simp_all add: add.commute)
  finally show ?thesis .
qed

lemma drop_concat_prefix:
  "n \<le> length xs \<Longrightarrow>
   drop (sum_list (map (\<lambda>x. length (f x)) (take n xs))) (concat (map f xs)) = concat (map f (drop n xs))"
proof (induction xs arbitrary: n)
  case Nil
  then show ?case by simp
next
  case (Cons x xs)
  then show ?case by (cases n) simp_all
qed

lemma slice_of_concat:
  assumes "n < length vars"
  shows "take (ncomp (vars ! n)) (drop (sum_list (map ncomp (take n vars))) (concat (map slices vars)))
           = slices (vars ! n)"
proof -
  have nc: "ncomp = (\<lambda>x. length (slices x))" by (simp add: length_slices fun_eq_iff)
  have "drop (sum_list (map ncomp (take n vars))) (concat (map slices vars))
          = concat (map slices (drop n vars))"
    using assms drop_concat_prefix[of n vars slices] by (simp add: nc)
  also have "drop n vars = vars ! n # drop (Suc n) vars"
    using assms by (simp add: Cons_nth_drop_Suc)
  finally show ?thesis by (simp add: length_slices)
qed

lemma sum_take_Suc:
  "n < length vars \<Longrightarrow>
   sum_list (map ncomp (take (Suc n) vars)) = sum_list (map ncomp (take n vars)) + ncomp (vars ! n)"
  by (simp add: take_Suc_conv_app_nth)

lemma sum_take_le:
  "sum_list (map ncomp (take n vars)) \<le> sum_list (map (ncomp :: 'a CellVariable \<Rightarrow> nat) vars)"
proof -
  have "sum_list (map ncomp vars) = sum_list (map ncomp (take n vars)) + sum_list (map ncomp (drop n vars))"
    by (metis append_take_drop_id map_append sum_list_append)
  then show ?thesis by simp
qed

lemma read_range_field:
  assumes "n < length vars"
  shows "read_range (concat (map slices vars)) (los 0 vars ! n) (his 0 vars ! n) = slices (vars ! n)"
proof -
  let ?a = "sum_list (map ncomp (take n vars))"
  let ?len = "ncomp (vars ! n)"
  have lo: "los 0 vars ! n = int ?a" using assms by (simp add: los_nth)
  have hi: "his 0 vars ! n = int (?a + ?len) - 1"
    using assms by (simp add: his_nth sum_take_Suc)
  have "length (concat (map slices vars)) = sum_list (map ncomp vars)"
    by (simp add: length_concat comp_def length_slices)
  moreover have "?a + ?len \<le> sum_list (map ncomp vars)"
    using sum_take_le[of "Suc n" vars] assms by (simp add: sum_take_Suc)
  ultimately have fit: "?a + ?len \<le> length (concat (map slices vars))" by simp
  show ?thesis
    unfolding lo hi using read_range_take_drop[OF fit] slice_of_concat[OF assms] by simp
qed

lemma fold_push_front: "fold (#) (rev xs) ys = xs @ ys"
  by (induction xs arbitrary: ys) auto

lemma names_loop_step_ok:
  "found_once c n \<Longrightarrow> names_loop c (n # rest) vars = names_loop c rest (fields_of c n @ vars)"
  by (auto simp: found_once_def in_both_def in_neither_def fields_of_def fold_push_front
           split: option.splits)

lemma names_loop_step_bad:
  "\<not> found_once c n \<Longrightarrow>
   names_loop c (n # rest) vars = Inl (if in_both c n then AmbiguousField n else FieldNotFound n)"
  by (auto simp: found_once_def in_both_def in_neither_def split: option.splits)

lemma names_loop_ok:
  "\<forall>n\<in>set ns. found_once c n \<Longrightarrow>
   names_loop c ns vars = Inr (concat (map (fields_of c) (rev ns)) @ vars)"
proof (induction ns arbitrary: vars)
  case Nil
  then show ?case by simp
next
  case (Cons n ns)
  then show ?case by (simp only: names_loop_step_ok list.set insert_iff ball_simps) simp
qed

lemma names_loop_bad:
  assumes "\<forall>m\<in>set pre. found_once c m" and "\<not> found_once c n"
  shows "names_loop c (pre @ n # rest) vars
           = Inl (if in_both c n then AmbiguousField n else FieldNotFound n)"
  using assms(1)
proof (induction pre arbitrary: vars)
  case Nil
  show ?case using names_loop_step_bad[OF assms(2)] by simp
next
  case (Cons m pre)
  then have m: "found_once c m" and pre: "\<forall>m\<in>set pre. found_once c m" by simp_all
  show ?case
    using Cons.IH[OF pre] by (simp only: append_Cons names_loop_step_ok[OF m])
qed

text \<open>
  When every name is found in exactly one map, the list holds the fields of the names in
  the order of the names.
\<close>

lemma MakeListFromNames_ok:
  "\<forall>n\<in>set names. found_once c n \<Longrightarrow>
   MakeListFromNames c names = Inr (concat (map (fields_of c) names))"
  unfolding MakeListFromNames_def using names_loop_ok[of "rev names" c "[]"] by simp

lemma MakeListFromNames_last_bad:
  assumes "\<not> found_once c n" and "\<forall>m\<in>set post. found_once c m"
  shows "MakeListFromNames c (pre @ n # post)
           = Inl (if in_both c n then AmbiguousField n else FieldNotFound n)"
proof -
  have "rev (pre @ n # post) = rev post @ n # rev pre" by simp
  moreover have "\<forall>m\<in>set (rev post). found_once c m" using assms(2) by simp
  ultimately show ?thesis
    unfolding MakeListFromNames_def using names_loop_bad[OF _ assms(1)] by metis
qed

lemma fields_of_plain_one:
  "found_once c m \<Longrightarrow> sparse_map c m = None \<Longrightarrow> fields_of c m = [the (var_map c m)]"
  by (auto simp: fields_of_def found_once_def in_neither_def split: option.splits)

lemma fields_of_plain:
  "\<forall>m\<in>set names. found_once c m \<and> sparse_map c m = None \<Longrightarrow>
   concat (map (fields_of c) names) = map (\<lambda>m. the (var_map c m)) names"
  by (induction names) (simp_all add: fields_of_plain_one)

text \<open>
  Claim C3, as the code has it. For every ordered list of names, each found in exactly
  one storage class of the container, that resolves to at least one field, the indexed
  pack is built; its variable axis is the concatenation of the fields' components in list
  order; its length, and the fourth extent of the pack, is the sum of the component
  counts; there is one offset pair per field; reading the entries \<open>lo..hi\<close> of field
  \<open>n\<close> gives exactly the slices stored in that field and nothing of the other fields,
  and \<open>hi - lo + 1\<close> is its component count. When all names are plain variables, field
  \<open>n\<close> is the variable of the \<open>n\<close>-th name.
\<close>

theorem PackIndexedVariables_offsets:
  assumes "\<forall>n\<in>set names. found_once c n"
    and "concat (map (fields_of c) names) \<noteq> []"
  shows "\<exists>p. PackIndexedVariables dflt c names = Inr p \<and>
     view p = concat (map slices (concat (map (fields_of c) names))) \<and>
     length (view p) = sum_list (map ncomp (concat (map (fields_of c) names))) \<and>
     dims p ! 3 = sum_list (map ncomp (concat (map (fields_of c) names))) \<and>
     length (ilo p) = length (concat (map (fields_of c) names)) \<and>
     length (ihi p) = length (concat (map (fields_of c) names)) \<and>
     (\<forall>n < length (concat (map (fields_of c) names)).
        read_range (view p) (ilo p ! n) (ihi p ! n) = slices (concat (map (fields_of c) names) ! n) \<and>
        ihi p ! n - ilo p ! n + 1 = int (ncomp (concat (map (fields_of c) names) ! n))) \<and>
     ((\<forall>m\<in>set names. sparse_map c m = None) \<longrightarrow>
        concat (map (fields_of c) names) = map (\<lambda>m. the (var_map c m)) names)"
proof -
  let ?vars = "concat (map (fields_of c) names)"
  obtain fvar vs where vars: "?vars = fvar # vs"
    using assms(2) by (cases ?vars) auto
  let ?p = "\<lparr>view = concat (map slices ?vars),
          dims = [dim1 fvar, dim2 fvar, dim3 fvar, sum_list (map ncomp ?vars)],
          ilo = los 0 ?vars, ihi = his 0 ?vars\<rparr>"
  have pk: "PackIndexedVariables dflt c names = Inr ?p"
    unfolding PackIndexedVariables_def MakeListFromNames_ok[OF assms(1)]
    using MakeIndexedPack_Cons[of dflt fvar vs] by (simp add: vars)
  have len: "length (concat (map slices ?vars)) = sum_list (map ncomp ?vars)"
    by (simp add: length_concat comp_def length_slices)
  have rt: "\<forall>n < length ?vars.
        read_range (view ?p) (ilo ?p ! n) (ihi ?p ! n) = slices (?vars ! n) \<and>
        ihi ?p ! n - ilo ?p ! n + 1 = int (ncomp (?vars ! n))"
  proof (intro allI impI conjI)
    fix n assume n: "n < length ?vars"
    show "read_range (view ?p) (ilo ?p ! n) (ihi ?p ! n) = slices (?vars ! n)"
      using read_range_field[OF n] by simp
    show "ihi ?p ! n - ilo ?p ! n + 1 = int (ncomp (?vars ! n))"
      using n by (simp add: los_nth his_nth sum_take_Suc)
  qed
  have pl: "(\<forall>m\<in>set names. sparse_map c m = None) \<longrightarrow>
        ?vars = map (\<lambda>m. the (var_map c m)) names"
    using assms(1) by (auto intro: fields_of_plain)
  show ?thesis
    using pk len rt pl by (intro exI[of _ ?p]) simp
qed

text \<open>
  Packing a, b, c and reading through the offsets of b retrieves the two values of b.
\<close>

theorem PackIndexedVariables_offsets_witness:
  "found_once abc_container ''a'' \<and> found_once abc_container ''b'' \<and>
   found_once abc_container ''c'' \<and>
   concat (map (fields_of abc_container) [''a'', ''b'', ''c'']) \<noteq> [] \<and>
   (\<exists>p. PackIndexedVariables 0 abc_container [''a'', ''b'', ''c''] = Inr p \<and>
        length (view p) = 4 \<and>
        read_range (view p) (ilo p ! 1) (ihi p ! 1) = [20, 21] \<and>
        ihi p ! 1 - ilo p ! 1 + 1 = 2)"
proof -
  let ?names = "[''a'', ''b'', ''c'']"
  have h1: "\<forall>n\<in>set ?names. found_once abc_container n"
    by (simp add: found_once_def in_both_def in_neither_def abc_container_def)
  have vars: "concat (map (fields_of abc_container) ?names)
                = [line_var 1 (\<lambda>i. 10), line_var 2 (\<lambda>i. 20 + int i), line_var 1 (\<lambda>i. 30)]"
    by (simp add: fields_of_def abc_container_def)
  have h2: "concat (map (fields_of abc_container) ?names) \<noteq> []"
    unfolding vars by simp
  have sl: "slices (line_var 2 (\<lambda>i. 20 + int i)) = [20, 21]"
    by (simp add: slices_def line_var_def upt_rec)
  have nc: "ncomp (line_var n f) = n" for n and f :: "nat \<Rightarrow> int"
    by (simp add: ncomp_def line_var_def)
  from PackIndexedVariables_offsets[OF h1 h2, of 0]
  obtain p where p: "PackIndexedVariables 0 abc_container ?names = Inr p"
    and len: "length (view p) = sum_list (map ncomp (concat (map (fields_of abc_container) ?names)))"
    and rt: "\<forall>n < length (concat (map (fields_of abc_container) ?names)).
        read_range (view p) (ilo p ! n) (ihi p ! n)
          = slices (concat (map (fields_of abc_container) ?names) ! n) \<and>
        ihi p ! n - ilo p ! n + 1 = int (ncomp (concat (map (fields_of abc_container) ?names) ! n))"
    by blast
  have l4: "length (view p) = 4" using len unfolding vars by (simp add: nc)
  have r1: "read_range (view p) (ilo p ! 1) (ihi p ! 1) = [20, 21]"
    and r2: "ihi p ! 1 - ilo p ! 1 + 1 = 2"
    using rt[rule_format, of 1] unfolding vars by (simp_all add: sl nc)
  have h1': "found_once abc_container ''a'' \<and> found_once abc_container ''b'' \<and>
             found_once abc_container ''c''"
    using h1 by simp
  show ?thesis using h1' h2 p l4 r1 r2 by blast
qed

text \<open>
  Claim C3 as stated fails: the one-name list of a name that is present in the container,
  as a plain variable and as a sparse variable too, is rejected as ambiguous and no pack is
  built.
\<close>

theorem present_name_rejected_counterexample:
  "var_map both_container ''a'' = Some (line_var 1 (\<lambda>i. 10)) \<and>
   [''a''] \<noteq> [] \<and>
   MakeListFromNames both_container [''a''] = Inl (AmbiguousField ''a'') \<and>
   PackIndexedVariables 0 both_container [''a''] = Inl (AmbiguousField ''a'')"
  by (simp add: PackIndexedVariables_def MakeListFromNames_def both_container_def)

text \<open>
  A name found once that resolves to no field leaves the list empty, and
  \<open>MakeIndexedPack\<close> goes on to \<open>vars.front()\<close> as it does for an empty list of
  names.
\<close>

lemma empty_sparse_name_reaches_front:
  "found_once empty_sparse_container ''s'' \<and>
   MakeListFromNames empty_sparse_container [''s''] = Inr [] \<and>
   PackIndexedVariables 0 empty_sparse_container [''s''] = Inl UndefinedFront"
  by (simp add: PackIndexedVariables_def MakeListFromNames_def MakeIndexedPack_def
        empty_sparse_container_def found_once_def in_both_def in_neither_def)

text \<open>
  Claim C6, as the code has it. For every name list in which some name is found in both
  storage classes or in neither, pack construction by names is rejected and returns no
  list and no pack. Names are resolved from the end of the list, so the error is that of
  the last such name: \<open>AmbiguousField\<close> when it is found in both classes,
  \<open>FieldNotFound\<close> when it is found in neither.
\<close>

theorem MakeListFromNames_rejects:
  assumes "\<exists>n\<in>set names. \<not> found_once c n"
  shows "\<exists>pre n post. names = pre @ n # post \<and> \<not> found_once c n \<and>
           (\<forall>m\<in>set post. found_once c m) \<and>
           MakeListFromNames c names
             = Inl (if in_both c n then AmbiguousField n else FieldNotFound n) \<and>
           PackVariables dflt c names
             = Inl (if in_both c n then AmbiguousField n else FieldNotFound n) \<and>
           PackIndexedVariables dflt c names
             = Inl (if in_both c n then AmbiguousField n else FieldNotFound n)"
proof -
  from assms obtain pre n post where sp: "names = pre @ n # post"
    and bad: "\<not> found_once c n" and good: "\<forall>m\<in>set post. \<not> \<not> found_once c m"
    using split_list_last_prop[of names "\<lambda>n. \<not> found_once c n"] by blast
  from good have good': "\<forall>m\<in>set post. found_once c m" by simp
  have r: "MakeListFromNames c names
             = Inl (if in_both c n then AmbiguousField n else FieldNotFound n)"
    unfolding sp by (rule MakeListFromNames_last_bad[OF bad good'])
  have "PackVariables dflt c names
             = Inl (if in_both c n then AmbiguousField n else FieldNotFound n)"
    unfolding PackVariables_def r by simp
  moreover have "PackIndexedVariables dflt c names
             = Inl (if in_both c n then AmbiguousField n else FieldNotFound n)"
    unfolding PackIndexedVariables_def r by simp
  ultimately show ?thesis using sp bad good' r by blast
qed

text \<open>
  A name found in both classes at the end of the list is rejected as ambiguous.
\<close>

theorem MakeListFromNames_rejects_witness:
  "(\<exists>n\<in>set [''z'', ''a'']. \<not> found_once both_container n) \<and>
   (\<exists>pre n post. [''z'', ''a''] = pre @ n # post \<and> \<not> found_once both_container n \<and>
           (\<forall>m\<in>set post. found_once both_container m) \<and>
           MakeListFromNames both_container [''z'', ''a'']
             = Inl (if in_both both_container n then AmbiguousField n else FieldNotFound n) \<and>
           PackVariables (0::int) both_container [''z'', ''a'']
             = Inl (if in_both both_container n then AmbiguousField n else FieldNotFound n) \<and>
           PackIndexedVariables 0 both_container [''z'', ''a'']
             = Inl (if in_both both_container n then AmbiguousField n else FieldNotFound n)) \<and>
   MakeListFromNames both_container [''z'', ''a''] = Inl (AmbiguousField ''a'')"
proof -
  have h: "\<exists>n\<in>set [''z'', ''a'']. \<not> found_once both_container n"
    by (simp add: found_once_def in_both_def in_neither_def both_container_def)
  have e: "MakeListFromNames both_container [''z'', ''a''] = Inl (AmbiguousField ''a'')"
    by (simp add: MakeListFromNames_def both_container_def)
  show ?thesis
    using h MakeListFromNames_rejects[OF h, of 0] e by blast
qed

text \<open>
  Claim C6 as stated fails: a list with a name found in both classes, followed by an
  unknown name, is rejected with \<open>FieldNotFound\<close> for the unknown name and not with
  \<open>AmbiguousField\<close>.
\<close>

theorem ambiguous_name_FieldNotFound_counterexample:
  "''a'' \<in> set [''a'', ''z''] \<and> in_both both_container ''a'' \<and>
   MakeListFromNames both_container [''a'', ''z''] = Inl (FieldNotFound ''z'') \<and>
   MakeListFromNames both_container [''a'', ''z''] \<noteq> Inl (AmbiguousField ''a'')"
  by (simp add: MakeListFromNames_def both_container_def in_both_def)

text \<open>
  Claim C5. For the empty list of names, \<open>MakeListFromNames\<close> returns the empty list
  and both \<open>MakePack\<close> and \<open>MakeIndexedPack\<close> go on to \<open>vars.front()\<close> of that
  empty list: no \<open>EmptySelection\<close> error is reported.
\<close>

theorem empty_selection_undefined:
  "MakeListFromNames c [] = Inr [] \<and>
   MakePack dflt [] = Inl UndefinedFront \<and>
   MakeIndexedPack dflt [] = Inl UndefinedFront \<and>
   PackVariables dflt c [] = Inl UndefinedFront \<and>
   PackIndexedVariables dflt c [] = Inl UndefinedFront \<and>
   PackVariables dflt c [] \<noteq> Inl EmptySelection \<and>
   PackIndexedVariables dflt c [] \<noteq> Inl EmptySelection"
  by (simp add: MakeListFromNames_def MakePack_def MakeIndexedPack_def PackVariables_def
        PackIndexedVariables_def)

section \<open>Properties of the solver tasks\<close>

lemma distinct_interior_cells: "distinct (interior_cells nb u)"
  unfolding interior_cells_def by (intro distinct_product) simp_all

lemma distinct_interior: "distinct (interior u)"
  by (simp add: interior_def distinct_interior_cells)

lemma fold_sum: "fold (\<lambda>c lsum. lsum + f c) cs (a::real) = a + sum_list (map f cs)"
  by (induction cs arbitrary: a) simp_all

lemma fold_upd_cells:
  "distinct cs \<Longrightarrow>
   fold (\<lambda>c v. v(c := k (v c))) cs v = (\<lambda>c. if c \<in> set cs then k (v c) else v c)"
proof (induction cs arbitrary: v)
  case Nil
  then show ?case by simp
next
  case (Cons c cs)
  then have d: "distinct cs" and n: "c \<notin> set cs" by simp_all
  let ?v = "v(c := k (v c))"
  have "fold (\<lambda>c v. v(c := k (v c))) (c # cs) v = fold (\<lambda>c v. v(c := k (v c))) cs ?v"
    by (simp only: fold_simps)
  also have "\<dots> = (\<lambda>x. if x \<in> set cs then k (?v x) else ?v x)"
    by (rule Cons.IH[OF d])
  also have "\<dots> = (\<lambda>x. if x \<in> set (c # cs) then k (v x) else v x)"
    using n by (auto simp: fun_eq_iff)
  finally show ?case .
qed

lemma fold_upd_cells_acc:
  "distinct cs \<Longrightarrow>
   fold (\<lambda>c (v, lerr). (v(c := k (v c)), lerr + r (v c))) cs (v, a :: real)
     = ((\<lambda>c. if c \<in> set cs then k (v c) else v c), a + sum_list (map (\<lambda>c. r (v c)) cs))"
proof (induction cs arbitrary: v a)
  case Nil
  then show ?case by simp
next
  case (Cons c cs)
  then have d: "distinct cs" and n: "c \<notin> set cs" by simp_all
  let ?F = "\<lambda>c (v, lerr). (v(c := k (v c)), lerr + r (v c))"
  let ?v = "v(c := k (v c))"
  have m: "map (\<lambda>x. r (?v x)) cs = map (\<lambda>x. r (v x)) cs"
    using n by (intro map_cong) auto
  have "fold ?F (c # cs) (v, a) = fold ?F cs (?v, a + r (v c))"
    by (simp only: fold_simps prod.case)
  also have "\<dots> = ((\<lambda>x. if x \<in> set cs then k (?v x) else ?v x),
                     a + r (v c) + sum_list (map (\<lambda>x. r (?v x)) cs))"
    by (rule Cons.IH[OF d])
  also have "\<dots> = ((\<lambda>x. if x \<in> set (c # cs) then k (v x) else v x),
                     a + sum_list (map (\<lambda>x. r (v x)) (c # cs)))"
    using n unfolding m by (auto simp: fun_eq_iff)
  finally show ?case .
qed

lemma interior_one_cell: "interior (one_cell_mesh nd dx w) = [(0, 0, 0, 0)]"
  by (simp add: interior_def interior_cells_def one_cell_mesh_def)

lemma DotProduct_eq:
  "DotProduct u v1 v2 c = c + (\<Sum>x\<leftarrow>interior u. var u x v1 * var u x v2)"
  by (simp add: DotProduct_def fold_sum)

lemma fold_DotProduct:
  "fold (\<lambda>u acc. DotProduct u v1 v2 acc) us c
     = c + (\<Sum>u\<leftarrow>us. \<Sum>x\<leftarrow>interior u. var u x v1 * var u x v2)"
  by (induction us arbitrary: c) (simp_all add: DotProduct_eq add.assoc)

text \<open>
  Claim C9. \<open>DotProduct\<close> adds the sum of \<open>v1 * v2\<close> over all blocks and interior
  cells to the accumulator it is given, whatever its value \<open>c\<close> was, and
  \<open>OmegaDotProd\<close> adds \<open>t . s\<close> and \<open>t . t\<close> to its two accumulators. Run over the
  partitions \<open>us\<close> in turn on one accumulator, \<open>DotProduct\<close> leaves \<open>c\<close> plus the
  total over all partitions, which is the total exactly when \<open>c = 0\<close>.
\<close>

theorem DotProduct_accumulates:
  "DotProduct u v1 v2 c = c + (\<Sum>x\<leftarrow>interior u. var u x v1 * var u x v2) \<and>
   OmegaDotProd u a b = (a + (\<Sum>x\<leftarrow>interior u. var u x Tk * var u x Res),
                         b + (\<Sum>x\<leftarrow>interior u. var u x Tk * var u x Tk)) \<and>
   fold (\<lambda>u acc. DotProduct u v1 v2 acc) us c
     = c + (\<Sum>u\<leftarrow>us. \<Sum>x\<leftarrow>interior u. var u x v1 * var u x v2) \<and>
   (fold (\<lambda>u acc. DotProduct u v1 v2 acc) us c
     = (\<Sum>u\<leftarrow>us. \<Sum>x\<leftarrow>interior u. var u x v1 * var u x v2)) = (c = 0)"
proof -
  have o: "OmegaDotProd u a b = (a + (\<Sum>x\<leftarrow>interior u. var u x Tk * var u x Res),
                         b + (\<Sum>x\<leftarrow>interior u. var u x Tk * var u x Tk))"
    by (simp add: OmegaDotProd_def fold_sum)
  have f: "(fold (\<lambda>u acc. DotProduct u v1 v2 acc) us c
     = (\<Sum>u\<leftarrow>us. \<Sum>x\<leftarrow>interior u. var u x v1 * var u x v2)) = (c = 0)"
    unfolding fold_DotProduct by simp
  show ?thesis
    using DotProduct_eq[of u v1 v2 c] fold_DotProduct[of v1 v2 us c] o f by blast
qed

lemma fold_upd_cells3:
  "distinct cs \<Longrightarrow>
   fold (\<lambda>c (v, dv, lerr). (v(c := k (v c)), dv(c := d (dv c)), lerr + r (v c))) cs (v, dv, a :: real)
     = ((\<lambda>c. if c \<in> set cs then k (v c) else v c),
        (\<lambda>c. if c \<in> set cs then d (dv c) else dv c),
        a + sum_list (map (\<lambda>c. r (v c)) cs))"
proof (induction cs arbitrary: v dv a)
  case Nil
  then show ?case by simp
next
  case (Cons c cs)
  then have dc: "distinct cs" and n: "c \<notin> set cs" by simp_all
  let ?F = "\<lambda>c (v, dv, lerr). (v(c := k (v c)), dv(c := d (dv c)), lerr + r (v c))"
  let ?v = "v(c := k (v c))"
  let ?dv = "dv(c := d (dv c))"
  have m: "map (\<lambda>x. r (?v x)) cs = map (\<lambda>x. r (v x)) cs"
    using n by (intro map_cong) auto
  have "fold ?F (c # cs) (v, dv, a) = fold ?F cs (?v, ?dv, a + r (v c))"
    by (simp only: fold_simps prod.case)
  also have "\<dots> = ((\<lambda>x. if x \<in> set cs then k (?v x) else ?v x),
                     (\<lambda>x. if x \<in> set cs then d (?dv x) else ?dv x),
                     a + r (v c) + sum_list (map (\<lambda>x. r (?v x)) cs))"
    by (rule Cons.IH[OF dc])
  also have "\<dots> = ((\<lambda>x. if x \<in> set (c # cs) then k (v x) else v x),
                     (\<lambda>x. if x \<in> set (c # cs) then d (dv x) else dv x),
                     a + sum_list (map (\<lambda>x. r (v x)) (c # cs)))"
    using n unfolding m by (auto simp: fun_eq_iff)
  finally show ?case .
qed

text \<open>
  \<open>InitializeBiCGStab\<close> in closed form: the accumulator receives the sum of the
  right-hand side over the interior cells.
\<close>

lemma InitializeBiCGStab_eq:
  "InitializeBiCGStab sv u du gres0 =
     (sv\<lparr>rhoi_old := 1, alpha := 1, omega := 1\<rparr>,
      u\<lparr>var := (\<lambda>c. if c \<in> set (interior u)
                     then (var u c)(Res := var u c Rhs, Res0 := var u c Rhs, Vk := 0, Pk := 0)
                     else var u c)\<rparr>,
      du\<lparr>var := (\<lambda>c. if c \<in> set (interior u) then (var du c)(Sol := 0) else var du c)\<rparr>,
      gres0 + (\<Sum>c\<leftarrow>interior u. var u c Rhs))"
proof -
  have body: "(\<lambda>c (v, dv, lerr).
                    let w1 = (v c)(Res := v c Rhs);
                        w2 = w1(Res0 := w1 Rhs);
                        lerr' = lerr + w2 Rhs;
                        w3 = w2(Vk := 0);
                        w4 = w3(Pk := 0);
                        d = (dv c)(Sol := 0)
                    in (v(c := w4), dv(c := d), lerr'))
            = (\<lambda>c (v, dv, lerr :: real).
                  (v(c := (\<lambda>w. w(Res := w Rhs, Res0 := w Rhs, Vk := 0, Pk := 0)) (v c)),
                   dv(c := (\<lambda>w. w(Sol := 0 :: real)) (dv c)),
                   lerr + (\<lambda>w. w Rhs) (v c)))"
    by (intro ext) (simp add: Let_def split_def)
  note f = fold_upd_cells3[OF distinct_interior[of u],
      where k = "\<lambda>w. w(Res := w Rhs, Res0 := w Rhs, Vk := 0, Pk := 0)"
        and d = "\<lambda>w. w(Sol := 0)" and r = "\<lambda>w. w Rhs"
        and v = "var u" and dv = "var du" and a = 0]
  show ?thesis
    unfolding InitializeBiCGStab_def body
    by (simp only: f Let_def prod.case) simp
qed

lemma InitializeBiCGStab_gres0:
  "snd (snd (snd (InitializeBiCGStab sv u du gres0))) = gres0 + (\<Sum>c\<leftarrow>interior u. var u c Rhs)"
  by (simp add: InitializeBiCGStab_eq)

text \<open>
  \<open>Update_x_res\<close> in closed form. Its residual accumulator receives the sum of the
  squares of the new residual.
\<close>

lemma Update_x_res_eq:
  assumes "t_dot_t sv \<noteq> 0"
  shows "Update_x_res sv u du gres =
     Inr (sv\<lparr>omega := t_dot_s sv / t_dot_t sv\<rparr>,
          u\<lparr>var := (\<lambda>c. if c \<in> set (interior u)
                     then (var u c)(Sol := var u c Sol + t_dot_s sv / t_dot_t sv * var u c Res,
                                    Res := var u c Res - t_dot_s sv / t_dot_t sv * var u c Tk)
                     else var u c)\<rparr>,
          gres + (\<Sum>c\<leftarrow>interior u. (var u c Res - t_dot_s sv / t_dot_t sv * var u c Tk)\<^sup>2))"
proof -
  let ?sv = "sv\<lparr>omega := t_dot_s sv / t_dot_t sv\<rparr>"
  have body: "(\<lambda>c (v, lerr).
                      let w1 = (v c)(Sol := v c Sol + w * v c Res);
                          w2 = w1(Res := w1 Res - w * w1 Tk)
                      in (v(c := w2), lerr + w2 Res * w2 Res))
            = (\<lambda>c (v, lerr :: real).
                  (v(c := (\<lambda>x. x(Sol := x Sol + w * x Res, Res := x Res - w * x Tk)) (v c)),
                   lerr + (\<lambda>x. (x Res - w * x Tk)\<^sup>2) (v c)))" for w
    by (intro ext) (simp add: Let_def split_def power2_eq_square)
  note f = fold_upd_cells_acc[OF distinct_interior[of u],
      where k = "\<lambda>x. x(Sol := x Sol + omega ?sv * x Res, Res := x Res - omega ?sv * x Tk)"
        and r = "\<lambda>x. (x Res - omega ?sv * x Tk)\<^sup>2" and v = "var u" and a = 0]
  show ?thesis
    unfolding Update_x_res_def using assms
    by (simp only: body) (simp only: Let_def f prod.case, simp cong: if_cong)
qed

text \<open>
  The completion task on partition 0 after the first cycle: \<open>global_res0\<close> already
  holds the initial norm, and the status is \<open>complete\<close> exactly when the residual norm
  divided by it is below the tolerance.
\<close>

lemma CheckConvergence_later_cycle:
  assumes "bicgstab_cntr sv \<noteq> 0" and "0 \<le> global_res sv" and "global_res0 sv \<noteq> 0"
  shows "map_sum id snd (CheckConvergence sv 0 True) =
           Inr (if sqrt (global_res sv) / global_res0 sv < error_tol sv
                then TaskStatus_complete else TaskStatus_iterate)"
  using assms by (simp add: CheckConvergence_def std_sqrt_def Let_def)

text \<open>
  In the first cycle the initial norm is the square root of what
  \<open>InitializeBiCGStab\<close> accumulated.
\<close>

lemma CheckConvergence_first_cycle:
  assumes "bicgstab_cntr sv = 0" and "0 \<le> global_res sv" and "0 < global_res0 sv"
  shows "map_sum id snd (CheckConvergence sv 0 True) =
           Inr (if sqrt (global_res sv) / sqrt (global_res0 sv) < error_tol sv
                then TaskStatus_complete else TaskStatus_iterate)"
  using assms by (simp add: CheckConvergence_def std_sqrt_def Let_def)

text \<open>
  Claim C1 at a concrete input. On one block with one interior cell and right-hand side 4,
  \<open>InitializeBiCGStab\<close> leaves 4 in the initial-norm accumulator, where the sum of
  squares of the initial residual is 16. With that accumulator and a squared residual
  norm of 1, the completion task of the first cycle on partition 0 returns \<open>iterate\<close>
  for the tolerance 3/10, although the relative residual \<open>sqrt 1 / sqrt 16\<close> is below
  the tolerance.
\<close>

theorem InitializeBiCGStab_sums_rhs_not_squares:
  "snd (snd (snd (InitializeBiCGStab (shared_state_init example_solver)
        (one_cell_mesh 1 (\<lambda>d. 1) (\<lambda>n. if n = Rhs then 4 else 0))
        (one_cell_mesh 1 (\<lambda>d. 1) (\<lambda>n. 0)) 0))) = 4 \<and>
   (\<Sum>c\<leftarrow>interior (one_cell_mesh 1 (\<lambda>d. 1) (\<lambda>n. if n = Rhs then 4 else 0)).
       (var (one_cell_mesh 1 (\<lambda>d. 1) (\<lambda>n. if n = Rhs then 4 else 0)) c Rhs)\<^sup>2) = 16 \<and>
   map_sum id snd (CheckConvergence (example_solver\<lparr>bicgstab_cntr := 0, global_res0 := 4, global_res := 1\<rparr>) 0 True)
     = Inr TaskStatus_iterate \<and>
   sqrt 1 / sqrt 16 < error_tol example_solver"
proof -
  have s16: "sqrt 16 = 4" using real_sqrt_abs[of 4] by simp
  have a: "snd (snd (snd (InitializeBiCGStab (shared_state_init example_solver)
        (one_cell_mesh 1 (\<lambda>d. 1) (\<lambda>n. if n = Rhs then 4 else 0))
        (one_cell_mesh 1 (\<lambda>d. 1) (\<lambda>n. 0)) 0))) = 4"
    by (simp add: InitializeBiCGStab_gres0 interior_one_cell) (simp add: one_cell_mesh_def)
  have b: "(\<Sum>c\<leftarrow>interior (one_cell_mesh 1 (\<lambda>d. 1) (\<lambda>n. if n = Rhs then 4 else 0)).
       (var (one_cell_mesh 1 (\<lambda>d. 1) (\<lambda>n. if n = Rhs then 4 else 0)) c Rhs)\<^sup>2) = 16"
    by (simp add: interior_one_cell) (simp add: one_cell_mesh_def)
  have c: "map_sum id snd (CheckConvergence (example_solver\<lparr>bicgstab_cntr := 0, global_res0 := 4, global_res := 1\<rparr>) 0 True)
     = Inr TaskStatus_iterate"
    by (simp add: CheckConvergence_def std_sqrt_def example_solver_def Let_def)
  have d: "sqrt 1 / sqrt 16 < error_tol example_solver"
    by (simp add: s16 example_solver_def)
  from a b c d show ?thesis by blast
qed

lemma interior_var_update [simp]: "interior (u\<lparr>var := v\<rparr>) = interior u"
  by (simp add: interior_def interior_cells_def)

lemma Compute_pk_eq:
  assumes "rhoi_old sv \<noteq> 0" and "omega sv \<noteq> 0"
  shows "Compute_pk sv u =
     Inr (sv\<lparr>rhoi_old := rhoi sv\<rparr>,
          u\<lparr>var := (\<lambda>c. if c \<in> set (interior u)
                     then (var u c)(Pk := var u c Res
                            + (rhoi sv / rhoi_old sv) * (alpha sv / omega sv)
                              * (var u c Pk - omega sv * var u c Vk))
                     else var u c)\<rparr>)"
proof -
  note f = fold_upd_cells[OF distinct_interior[of u],
      where k = "\<lambda>w. w(Pk := w Res + (rhoi sv / rhoi_old sv) * (alpha sv / omega sv)
                              * (w Pk - omega (sv\<lparr>rhoi_old := rhoi sv\<rparr>) * w Vk))" and v = "var u"]
  show ?thesis
    unfolding Compute_pk_def using assms by (simp only: Let_def f) (simp cong: if_cong)
qed

lemma Update_h_eq:
  assumes "r0_dot_vk sv \<noteq> 0"
  shows "Update_h sv u du =
     Inr (sv, u\<lparr>var := (\<lambda>c. if c \<in> set (interior u)
                     then (var u c)(Sol := var u c Sol + rhoi sv / r0_dot_vk sv * var u c Pk)
                     else var u c)\<rparr>)"
proof -
  note f = fold_upd_cells[OF distinct_interior[of u],
      where k = "\<lambda>w. w(Sol := w Sol + rhoi sv / r0_dot_vk sv * w Pk)" and v = "var u"]
  show ?thesis
    unfolding Update_h_def using assms by (simp only: Let_def f) simp
qed

text \<open>
  No task of the cycle assigns \<open>alpha\<close>: it keeps the value 1 that
  \<open>InitializeBiCGStab\<close> gave it.
\<close>

lemma alpha_never_assigned:
  "(Compute_pk sv u = Inr (sv', u') \<longrightarrow> alpha sv' = alpha sv) \<and>
   (Update_h sv u du = Inr (sv', u') \<longrightarrow> sv' = sv) \<and>
   (Update_s sv u = Inr (sv', u') \<longrightarrow> sv' = sv) \<and>
   (Update_x_res sv u du gres = Inr (sv', u', gres') \<longrightarrow> alpha sv' = alpha sv) \<and>
   (CheckConvergence sv i report = Inr (sv', st) \<longrightarrow> alpha sv' = alpha sv)"
proof -
  have a: "Compute_pk sv u = Inr (sv', u') \<longrightarrow> alpha sv' = alpha sv"
    by (auto simp: Compute_pk_def Let_def split: if_splits)
  have b: "Update_h sv u du = Inr (sv', u') \<longrightarrow> sv' = sv"
    by (auto simp: Update_h_def Let_def split: if_splits)
  have c: "Update_s sv u = Inr (sv', u') \<longrightarrow> sv' = sv"
    by (auto simp: Update_s_def Let_def split: if_splits)
  have d: "Update_x_res sv u du gres = Inr (sv', u', gres') \<longrightarrow> alpha sv' = alpha sv"
    by (auto simp: Update_x_res_def Let_def split_def split: if_splits)
  have e: "CheckConvergence sv i report = Inr (sv', st) \<longrightarrow> alpha sv' = alpha sv"
    by (auto simp: CheckConvergence_def Let_def std_sqrt_def split: if_splits sum.splits)
  from a b c d e show ?thesis by blast
qed

text \<open>
  Claim C2 at a concrete input. With \<open>rho_i = 6\<close> and \<open>r0 . v = 3\<close>, \<open>Update_h\<close>
  uses the quotient 2 and returns the solver with \<open>alpha\<close> still 1. In the next cycle,
  with \<open>rho_i = 12\<close>, the previous \<open>rho = 6\<close> and \<open>omega = 2\<close>, \<open>Compute_pk\<close>
  therefore forms \<open>beta = (12 / 6) * (1 / 2)\<close> and sets \<open>p = 1 + 1 * (3 - 2 * 1) = 2\<close>,
  where the \<open>beta\<close> of the claim, \<open>(12 / 6) * (2 / 2)\<close>, gives 3.
\<close>

theorem Compute_pk_uses_initial_alpha:
  "map_sum id (alpha \<circ> fst) (Update_h example_solver pk_example_mesh pk_example_mesh) = Inr 1 \<and>
   rhoi example_solver / r0_dot_vk example_solver = 2 \<and>
   map_sum id (\<lambda>(sv', u'). map_sum id (\<lambda>(sv'', u''). var u'' (0, 0, 0, 0) Pk)
                               (Compute_pk (sv'\<lparr>rhoi := 12, omega := 2\<rparr>) u'))
     (Update_h example_solver pk_example_mesh pk_example_mesh) = Inr (Inr 2) \<and>
   (1::real) + (12 / 6) * (2 / 2) * (3 - 2 * 1) = 3"
proof -
  let ?U = "pk_example_mesh"
  let ?v1 = "\<lambda>c. if c \<in> set (interior ?U)
                     then (var ?U c)(Sol := var ?U c Sol
                             + rhoi example_solver / r0_dot_vk example_solver * var ?U c Pk)
                     else var ?U c"
  let ?sv = "example_solver\<lparr>rhoi := 12, omega := 2\<rparr>"
  have nz: "r0_dot_vk example_solver \<noteq> 0" by (simp add: example_solver_def)
  have uh: "Update_h example_solver ?U ?U = Inr (example_solver, ?U\<lparr>var := ?v1\<rparr>)"
    by (rule Update_h_eq[OF nz])
  have nz2: "rhoi_old ?sv \<noteq> 0" "omega ?sv \<noteq> 0" by (simp_all add: example_solver_def)
  note cp = Compute_pk_eq[OF nz2, of "?U\<lparr>var := ?v1\<rparr>"]
  have int: "interior ?U = [(0, 0, 0, 0)]"
    by (simp add: pk_example_mesh_def interior_one_cell)
  have vals: "var ?U (0, 0, 0, 0) = (\<lambda>n. if n = Res then 1 else if n = Pk then 3 else if n = Vk then 1 else 0)"
    by (simp add: pk_example_mesh_def one_cell_mesh_def)
  have a: "map_sum id (alpha \<circ> fst) (Update_h example_solver ?U ?U) = Inr 1"
    unfolding uh by (simp add: example_solver_def)
  have b: "rhoi example_solver / r0_dot_vk example_solver = 2"
    by (simp add: example_solver_def)
  have c: "map_sum id (\<lambda>(sv', u'). map_sum id (\<lambda>(sv'', u''). var u'' (0, 0, 0, 0) Pk)
                               (Compute_pk (sv'\<lparr>rhoi := 12, omega := 2\<rparr>) u'))
     (Update_h example_solver ?U ?U) = Inr (Inr 2)"
    unfolding uh
    by (simp only: map_sum.simps prod.case cp)
       (simp add: int vals example_solver_def cong: if_cong)
  from a b c show ?thesis by simp
qed

lemma fold_out_vec_other:
  "n \<noteq> out_vec \<Longrightarrow>
   fold (\<lambda>c v. v(c := (v c)(out_vec := g v c))) cs v x n = v x n"
  by (induction cs arbitrary: v) simp_all

lemma MatVec_other:
  "n \<noteq> out_vec \<Longrightarrow> var (MatVec acc u in_vec out_vec) x n = var u x n"
  by (simp add: MatVec_def Let_def fold_out_vec_other)

lemma interior_MatVec [simp]: "interior (MatVec acc u in_vec out_vec) = interior u"
  by (simp add: MatVec_def Let_def)

lemma sum_list_all_zero: "(\<forall>x\<in>set xs. f x = (0::real)) \<Longrightarrow> sum_list (map f xs) = 0"
  by (induction xs) simp_all

lemma DotProduct_zero_left:
  "\<forall>c\<in>set (interior u). var u c v1 = 0 \<Longrightarrow> DotProduct u v1 v2 a = a"
  unfolding DotProduct_eq using sum_list_all_zero[of "interior u" "\<lambda>x. var u x v1 * var u x v2"]
  by simp

lemma Update_h_zero: "r0_dot_vk sv = 0 \<Longrightarrow> Update_h sv u du = Inl DivisionByZero"
  by (simp add: Update_h_def)

text \<open>
  With a right-hand side that vanishes on the interior, \<open>r0\<close> vanishes there, and so
  does \<open>r0 . v\<close> whatever \<open>v = A p\<close> is.
\<close>

lemma zero_rhs_first_cycle:
  assumes "\<forall>c\<in>set (interior u). var u c Rhs = 0"
  shows "first_cycle_to_h acc sv u du = Inl DivisionByZero"
proof -
  let ?sv0 = "shared_state_init sv"
  let ?v1 = "\<lambda>c. if c \<in> set (interior u)
                     then (var u c)(Res := var u c Rhs, Res0 := var u c Rhs, Vk := 0, Pk := 0)
                     else var u c"
  let ?u1 = "u\<lparr>var := ?v1\<rparr>"
  let ?du1 = "du\<lparr>var := (\<lambda>c. if c \<in> set (interior u) then (var du c)(Sol := 0) else var du c)\<rparr>"
  let ?g0 = "global_res0 ?sv0 + (\<Sum>c\<leftarrow>interior u. var u c Rhs)"
  let ?sv1 = "?sv0\<lparr>rhoi_old := 1, alpha := 1, omega := 1\<rparr>"
  let ?sv2 = "?sv1\<lparr>global_res0 := ?g0\<rparr>"
  let ?sv3 = "?sv2\<lparr>rhoi := DotProduct ?u1 Res0 Res (rhoi ?sv2)\<rparr>"
  have init: "InitializeBiCGStab ?sv0 u du (global_res0 ?sv0) = (?sv1, ?u1, ?du1, ?g0)"
    by (rule InitializeBiCGStab_eq)
  have nz: "rhoi_old ?sv3 \<noteq> 0" "omega ?sv3 \<noteq> 0" by simp_all
  let ?sv4 = "?sv3\<lparr>rhoi_old := rhoi ?sv3\<rparr>"
  let ?v2 = "\<lambda>c. if c \<in> set (interior ?u1)
                     then (var ?u1 c)(Pk := var ?u1 c Res
                            + (rhoi ?sv3 / rhoi_old ?sv3) * (alpha ?sv3 / omega ?sv3)
                              * (var ?u1 c Pk - omega ?sv3 * var ?u1 c Vk))
                     else var ?u1 c"
  let ?u2 = "?u1\<lparr>var := ?v2\<rparr>"
  have cp: "Compute_pk ?sv3 ?u1 = Inr (?sv4, ?u2)"
    by (rule Compute_pk_eq[OF nz])
  let ?u3 = "MatVec acc ?u2 Pk Vk"
  have r0: "var ?u3 c Res0 = 0" if "c \<in> set (interior u)" for c
    using that assms by (simp add: MatVec_other)
  have r0': "\<forall>c\<in>set (interior ?u3). var ?u3 c Res0 = 0"
    using r0 by (simp only: interior_MatVec interior_var_update) blast
  have acc0: "r0_dot_vk ?sv4 = 0" by (simp add: shared_state_init_def)
  have dot: "DotProduct ?u3 Res0 Vk (r0_dot_vk ?sv4) = 0"
    unfolding DotProduct_zero_left[OF r0'] by (rule acc0)
  let ?sv5 = "?sv4\<lparr>r0_dot_vk := DotProduct ?u3 Res0 Vk (r0_dot_vk ?sv4)\<rparr>"
  have z: "r0_dot_vk ?sv5 = 0" using dot by simp
  have uh: "Update_h ?sv5 ?u3 ?du1 = Inl DivisionByZero"
    by (rule Update_h_zero[OF z])
  show ?thesis
    unfolding first_cycle_to_h_def
    by (simp only: Let_def init prod.case cp sum.case uh)
qed

text \<open>
  Claim C7, as the code has it. The divisions are not guarded: \<open>Update_h\<close> and
  \<open>Update_s\<close> divide by \<open>r0_dot_vk\<close>, and \<open>Update_x_res\<close> divides by
  \<open>t_dot_t\<close>, whatever the denominator is, so each is a division by zero exactly when
  its denominator is zero. That case is reachable: whenever the right-hand side vanishes
  on the interior, the first cycle reaches \<open>Update_h\<close> with \<open>r0_dot_vk = 0\<close>,
  for every matrix.
\<close>

theorem alpha_omega_divisions_unguarded:
  "(Update_h sv u du = Inl DivisionByZero) = (r0_dot_vk sv = 0) \<and>
   (Update_s sv u = Inl DivisionByZero) = (r0_dot_vk sv = 0) \<and>
   (Update_x_res sv u du gres = Inl DivisionByZero) = (t_dot_t sv = 0) \<and>
   ((\<forall>c\<in>set (interior u). var u c Rhs = 0) \<longrightarrow>
      first_cycle_to_h sp_accessor_MatVec sv u du = Inl DivisionByZero)"
proof -
  have a: "(Update_h sv u du = Inl DivisionByZero) = (r0_dot_vk sv = 0)"
    by (simp add: Update_h_def Let_def)
  have b: "(Update_s sv u = Inl DivisionByZero) = (r0_dot_vk sv = 0)"
    by (simp add: Update_s_def Let_def)
  have c: "(Update_x_res sv u du gres = Inl DivisionByZero) = (t_dot_t sv = 0)"
    by (simp add: Update_x_res_def Let_def split_def)
  from a b c zero_rhs_first_cycle show ?thesis by blast
qed

text \<open>
  A mesh with zero right-hand side and a diagonal matrix with entry 6.
\<close>

theorem alpha_omega_divisions_unguarded_witness:
  "interior (one_cell_mesh 3 (\<lambda>d. 1) (\<lambda>n. if n = Spm 1 then 6 else 0)) = [(0, 0, 0, 0)] \<and>
   var (one_cell_mesh 3 (\<lambda>d. 1) (\<lambda>n. if n = Spm 1 then 6 else 0)) (0, 0, 0, 0) Rhs = 0 \<and>
   first_cycle_to_h (\<lambda>v n c. v c (Spm 1) * v c n) example_solver
      (one_cell_mesh 3 (\<lambda>d. 1) (\<lambda>n. if n = Spm 1 then 6 else 0))
      (one_cell_mesh 3 (\<lambda>d. 1) (\<lambda>n. 0)) = Inl DivisionByZero \<and>
   (Update_x_res example_solver pk_example_mesh pk_example_mesh 0 = Inl DivisionByZero)
     = (t_dot_t example_solver = 0)"
proof -
  let ?u = "one_cell_mesh 3 (\<lambda>d. 1) (\<lambda>n. if n = Spm 1 then 6 else 0)"
  have i: "interior ?u = [(0, 0, 0, 0)]" by (rule interior_one_cell)
  have z: "var ?u (0, 0, 0, 0) Rhs = 0" by (simp add: one_cell_mesh_def)
  have h: "\<forall>c\<in>set (interior ?u). var ?u c Rhs = 0"
    unfolding i using z by simp
  show ?thesis
    using i z h alpha_omega_divisions_unguarded[of example_solver ?u
        "one_cell_mesh 3 (\<lambda>d. 1) (\<lambda>n. 0)" 0 "\<lambda>v n c. v c (Spm 1) * v c n"]
      alpha_omega_divisions_unguarded[of example_solver pk_example_mesh pk_example_mesh 0]
    by blast
qed

text \<open>
  Claim C7 as stated fails: with the seven-point stencil and a zero right-hand side on one
  cell, the first cycle reaches the division of \<open>Update_h\<close> with denominator zero.
\<close>

theorem zero_rhs_divides_by_zero_counterexample:
  "first_cycle_to_h (SparseMatrixAccessor_MatVec poisson_offsets) example_solver
      (one_cell_mesh 3 (\<lambda>d. 1) (\<lambda>n. 0)) (one_cell_mesh 3 (\<lambda>d. 1) (\<lambda>n. 0))
     = Inl DivisionByZero"
  by (simp add: first_cycle_to_h_def InitializeBiCGStab_def Compute_pk_def DotProduct_def
        MatVec_def SparseMatrixAccessor_MatVec_def poisson_offsets_def
        shared_state_init_def example_solver_def interior_def interior_cells_def
        one_cell_mesh_def Update_h_def Let_def)

section \<open>Properties of the Poisson package tasks\<close>

lemma spacing_check_iff:
  "spacing_check u = (\<forall>i. X2DIR \<le> i \<and> i \<le> GetNdim u \<longrightarrow> Dx u i = Dx u X1DIR)"
  by (auto simp: spacing_check_def list_all_iff)

text \<open>
  \<open>SetRHS\<close> in closed form when the spacings agree.
\<close>

lemma SetRHS_uniform:
  "spacing_check u \<Longrightarrow>
   SetRHS u = (Inr TaskStatus_complete,
               u\<lparr>var := (\<lambda>c. if c \<in> set (interior u)
                     then (var u c)(Rhs := - (Dx u X1DIR ^ nat (GetNdim u)) * var u c Density)
                     else var u c)\<rparr>)"
proof -
  note f = fold_upd_cells[OF distinct_interior[of u],
      where k = "\<lambda>w. w(Rhs := - (Dx u X1DIR ^ nat (GetNdim u)) * w Density)" and v = "var u"]
  assume "spacing_check u"
  then show ?thesis
    unfolding SetRHS_def by (simp only: Let_def f) simp
qed

text \<open>
  The spacing test holds exactly when every axis from \<open>X2DIR\<close> up to the problem
  dimension has the spacing of \<open>X1DIR\<close>. When it fails, \<open>SetRHS\<close>, \<open>SumMass\<close>
  and \<open>UpdatePhi\<close> raise the grid-spacing error and leave the mesh data and the
  accumulator as they were. When it holds, \<open>SetRHS\<close> and \<open>SumMass\<close> return
  \<open>complete\<close>, and \<open>UpdatePhi\<close> returns \<open>complete\<close> exactly when the package
  holds the parameter it fetches; otherwise it fails before any cell is written.
\<close>

lemma grid_spacing_checked_before_update:
  "spacing_check u = (\<forall>i. X2DIR \<le> i \<and> i \<le> GetNdim u \<longrightarrow> Dx u i = Dx u X1DIR) \<and>
   (\<not> spacing_check u \<longrightarrow>
      SetRHS u = (Inl NonUniformGridSpacing, u) \<and>
      SumMass u reduce_sum = (Inl NonUniformGridSpacing, reduce_sum) \<and>
      UpdatePhi pkg u du = (Inl NonUniformGridSpacing, u, du)) \<and>
   (spacing_check u \<longrightarrow>
      fst (SetRHS u) = Inr TaskStatus_complete \<and>
      fst (SumMass u reduce_sum) = Inr TaskStatus_complete \<and>
      (fst (UpdatePhi pkg u du) = Inr TaskStatus_complete) = Param_registered pkg u \<and>
      (\<not> Param_registered pkg u \<longrightarrow> snd (UpdatePhi pkg u du) = (u, du)))"
proof -
  have a: "\<not> spacing_check u \<longrightarrow>
      SetRHS u = (Inl NonUniformGridSpacing, u) \<and>
      SumMass u reduce_sum = (Inl NonUniformGridSpacing, reduce_sum) \<and>
      UpdatePhi pkg u du = (Inl NonUniformGridSpacing, u, du)"
    by (simp add: SetRHS_def SumMass_def UpdatePhi_def)
  have b: "spacing_check u \<longrightarrow>
      fst (SetRHS u) = Inr TaskStatus_complete \<and>
      fst (SumMass u reduce_sum) = Inr TaskStatus_complete"
    by (simp add: SetRHS_def SumMass_def Let_def)
  have c: "spacing_check u \<longrightarrow>
      (fst (UpdatePhi pkg u du) = Inr TaskStatus_complete) = Param_registered pkg u"
    by (simp add: UpdatePhi_def Let_def Param_registered_def Param_Stencil_t_def
          Param_SparseMatrixAccessor_t_def split: option.splits param.splits)
  have d: "spacing_check u \<longrightarrow> \<not> Param_registered pkg u \<longrightarrow> snd (UpdatePhi pkg u du) = (u, du)"
    by (simp add: UpdatePhi_def Let_def Param_registered_def Param_Stencil_t_def
          Param_SparseMatrixAccessor_t_def split: option.splits param.splits)
  from spacing_check_iff a b c d show ?thesis by blast
qed

text \<open>
  Claim C8 at a concrete input. On a mesh whose two axes have the same spacing,
  \<open>SetRHS\<close> and \<open>SumMass\<close> complete, but \<open>UpdatePhi\<close> with the parameters that
  \<open>Initialize\<close> registers does not: it fetches "stencil", or "sparse\_accessor" when
  there is a matrix field, and neither key was added.
\<close>

theorem UpdatePhi_fetches_unregistered_param:
  "spacing_check uniform_example_mesh \<and>
   fst (SetRHS uniform_example_mesh) = Inr TaskStatus_complete \<and>
   fst (SumMass uniform_example_mesh 7) = Inr TaskStatus_complete \<and>
   Initialize_Params ''stencil'' = None \<and>
   Initialize_Params ''sparse_accessor'' = None \<and>
   UpdatePhi Initialize_Params uniform_example_mesh uniform_example_mesh
     = (Inl (ParamNotFound ''stencil''), uniform_example_mesh, uniform_example_mesh) \<and>
   UpdatePhi Initialize_Params (uniform_example_mesh\<lparr>isp_hi := 6\<rparr>) uniform_example_mesh
     = (Inl (ParamNotFound ''sparse_accessor''), uniform_example_mesh\<lparr>isp_hi := 6\<rparr>,
        uniform_example_mesh)"
proof -
  have g: "spacing_check uniform_example_mesh"
    by (simp add: spacing_check_def uniform_example_mesh_def one_cell_mesh_def X1DIR_def X2DIR_def)
  have g': "spacing_check (uniform_example_mesh\<lparr>isp_hi := 6\<rparr>)"
    by (simp add: spacing_check_def uniform_example_mesh_def one_cell_mesh_def X1DIR_def X2DIR_def)
  have s: "fst (SetRHS uniform_example_mesh) = Inr TaskStatus_complete"
    using g by (simp add: SetRHS_def Let_def)
  have m: "fst (SumMass uniform_example_mesh 7) = Inr TaskStatus_complete"
    using g by (simp add: SumMass_def Let_def)
  have k1: "Initialize_Params ''stencil'' = None"
    by (simp add: Initialize_Params_def)
  have k2: "Initialize_Params ''sparse_accessor'' = None"
    by (simp add: Initialize_Params_def)
  have lo: "isp_hi uniform_example_mesh < 0"
    by (simp add: uniform_example_mesh_def one_cell_mesh_def)
  have u1: "UpdatePhi Initialize_Params uniform_example_mesh uniform_example_mesh
     = (Inl (ParamNotFound ''stencil''), uniform_example_mesh, uniform_example_mesh)"
    using g lo by (simp add: UpdatePhi_def Let_def Param_Stencil_t_def k1)
  have u2: "UpdatePhi Initialize_Params (uniform_example_mesh\<lparr>isp_hi := 6\<rparr>) uniform_example_mesh
     = (Inl (ParamNotFound ''sparse_accessor''), uniform_example_mesh\<lparr>isp_hi := 6\<rparr>,
        uniform_example_mesh)"
    using g' by (simp add: UpdatePhi_def Let_def Param_SparseMatrixAccessor_t_def k2)
  from g s m k1 k2 u1 u2 show ?thesis by blast
qed

section \<open>Properties of the solver task list\<close>

lemmas CreateTaskList_unfold =
  added_tasks_def CreateTaskList_def AddTask_def AddRegionalDependencies_def
  AddGlobalDependencies_def Let_def split_def none_def

lemma added_fns_zero:
  "map task_fn (added_tasks begin_id 0 tlist) =
    [F_InitializeBiCGStab, F_StartReduce GlobalRes0, F_CheckReduce GlobalRes0,
     F_DotProduct Res0 Res Rhoi, F_StartReduce Rhoi, F_CheckReduce Rhoi, F_Compute_pk,
     F_StartReceiving, F_SendBoundaryBuffers, F_ReceiveBoundaryBuffers, F_SetBoundaries,
     F_ClearBoundary, F_MatVec Pk Vk, F_DotProduct Res0 Vk R0DotVk, F_StartReduce R0DotVk,
     F_CheckReduce R0DotVk, F_Update_h, F_Update_s, F_StartReceiving, F_SendBoundaryBuffers,
     F_ReceiveBoundaryBuffers, F_SetBoundaries, F_ClearBoundary, F_MatVec Res Tk,
     F_OmegaDotProd, F_StartReduce TDotS, F_CheckReduce TDotS, F_StartReduce TDotT,
     F_CheckReduce TDotT, F_Update_x_res, F_StartReduce GlobalRes, F_CheckReduce GlobalRes,
     F_CheckConvergence 0 True]"
  by (simp add: CreateTaskList_unfold)

lemma added_fns_nonzero:
  "i \<noteq> 0 \<Longrightarrow> map task_fn (added_tasks begin_id i tlist) =
    [F_InitializeBiCGStab, F_CheckReduce GlobalRes0,
     F_DotProduct Res0 Res Rhoi, F_CheckReduce Rhoi, F_Compute_pk,
     F_StartReceiving, F_SendBoundaryBuffers, F_ReceiveBoundaryBuffers, F_SetBoundaries,
     F_ClearBoundary, F_MatVec Pk Vk, F_DotProduct Res0 Vk R0DotVk,
     F_CheckReduce R0DotVk, F_Update_h, F_Update_s, F_StartReceiving, F_SendBoundaryBuffers,
     F_ReceiveBoundaryBuffers, F_SetBoundaries, F_ClearBoundary, F_MatVec Res Tk,
     F_OmegaDotProd, F_CheckReduce TDotS,
     F_CheckReduce TDotT, F_Update_x_res, F_CheckReduce GlobalRes,
     F_CheckConvergence i True]"
  by (simp add: CreateTaskList_unfold)

lemma check_deps_zero:
  "list_all (\<lambda>t. case task_fn t of
                   F_CheckReduce h \<Rightarrow> depends_on_one (added_tasks begin_id 0 tlist) t (\<lambda>f. f = F_StartReduce h)
                 | _ \<Rightarrow> True) (added_tasks begin_id 0 tlist)"
  by (simp add: CreateTaskList_unfold depends_on_one_def)

lemma start_deps_zero:
  "list_all (\<lambda>t. case task_fn t of
                   F_StartReduce h \<Rightarrow>
                     depends_on_one (added_tasks begin_id 0 tlist) t (\<lambda>f. f = corresponding_task h)
                 | _ \<Rightarrow> True) (added_tasks begin_id 0 tlist)"
  by (simp add: CreateTaskList_unfold depends_on_one_def corresponding_task_def)

lemma check_deps_nonzero:
  "i \<noteq> 0 \<Longrightarrow> list_all (\<lambda>t. case task_fn t of
                   F_CheckReduce h \<Rightarrow>
                     h = R0DotVk \<or> h = GlobalRes \<or>
                     depends_on_one (added_tasks begin_id i tlist) t (\<lambda>f. f = corresponding_task h)
                 | _ \<Rightarrow> True) (added_tasks begin_id i tlist)"
  by (simp add: CreateTaskList_unfold depends_on_one_def corresponding_task_def)

text \<open>
  What the source names for the two remaining handles on a partition other than 0:
  \<open>get_rhoi\<close> for \<open>r0 . v\<close> (line 164) and \<open>get_tdots\<close> for the residual
  (line 218), not the tasks that accumulate into them.
\<close>

lemma check_deps_nonzero_slips:
  "i \<noteq> 0 \<Longrightarrow> list_all (\<lambda>t. case task_fn t of
                   F_CheckReduce h \<Rightarrow>
                     (h = R0DotVk \<longrightarrow>
                        depends_on_one (added_tasks begin_id i tlist) t
                          (\<lambda>f. f = F_DotProduct Res0 Res Rhoi)) \<and>
                     (h = GlobalRes \<longrightarrow>
                        depends_on_one (added_tasks begin_id i tlist) t (\<lambda>f. f = F_OmegaDotProd))
                 | _ \<Rightarrow> True) (added_tasks begin_id i tlist)"
  by (simp add: CreateTaskList_unfold depends_on_one_def)

text \<open>
  Claim C4, as the code has it. For each of the six reduction handles, the list of
  partition \<open>i\<close> contains a \<open>StartReduce\<close> task exactly when \<open>i = 0\<close>, and that
  task depends on the task accumulating into the handle; the list of every partition
  contains a \<open>CheckReduce\<close> task. On partition 0 each \<open>CheckReduce\<close> depends on the
  \<open>StartReduce\<close> of its handle. On every other partition the \<open>CheckReduce\<close> of the
  initial residual, of \<open>rho_i\<close>, of \<open>t . s\<close> and of \<open>t . t\<close> depends directly on
  the corresponding local task; nothing is stated there for the handles of \<open>r0 . v\<close>
  and of the residual.
\<close>

theorem reduce_tasks_per_partition:
  "(F_StartReduce h \<in> task_fn ` set (added_tasks begin_id i tlist)) = (i = 0) \<and>
   F_CheckReduce h \<in> task_fn ` set (added_tasks begin_id i tlist) \<and>
   (\<forall>t\<in>set (added_tasks begin_id i tlist).
      task_fn t = F_StartReduce h \<longrightarrow>
        depends_on_one (added_tasks begin_id i tlist) t (\<lambda>f. f = corresponding_task h)) \<and>
   (\<forall>t\<in>set (added_tasks begin_id i tlist).
      task_fn t = F_CheckReduce h \<longrightarrow>
        (if i = 0
         then depends_on_one (added_tasks begin_id i tlist) t (\<lambda>f. f = F_StartReduce h)
         else h \<noteq> R0DotVk \<longrightarrow> h \<noteq> GlobalRes \<longrightarrow>
              depends_on_one (added_tasks begin_id i tlist) t (\<lambda>f. f = corresponding_task h)))"
proof (cases "i = 0")
  case True
  have fns: "task_fn ` set (added_tasks begin_id i tlist) = set (map task_fn (added_tasks begin_id 0 tlist))"
    using True by simp
  have a: "F_StartReduce h \<in> task_fn ` set (added_tasks begin_id i tlist)"
    unfolding fns added_fns_zero by (cases h) simp_all
  have b: "F_CheckReduce h \<in> task_fn ` set (added_tasks begin_id i tlist)"
    unfolding fns added_fns_zero by (cases h) simp_all
  have c: "\<forall>t\<in>set (added_tasks begin_id i tlist).
      task_fn t = F_CheckReduce h \<longrightarrow>
        depends_on_one (added_tasks begin_id i tlist) t (\<lambda>f. f = F_StartReduce h)"
    using check_deps_zero[of begin_id tlist] True
    by (auto simp: list_all_iff split: task_fn.splits)
  have d: "\<forall>t\<in>set (added_tasks begin_id i tlist).
      task_fn t = F_StartReduce h \<longrightarrow>
        depends_on_one (added_tasks begin_id i tlist) t (\<lambda>f. f = corresponding_task h)"
    using start_deps_zero[of begin_id tlist] True
    by (auto simp: list_all_iff split: task_fn.splits)
  from a b c d True show ?thesis by simp
next
  case False
  have fns: "task_fn ` set (added_tasks begin_id i tlist) = set (map task_fn (added_tasks begin_id i tlist))"
    by simp
  have a: "F_StartReduce h \<notin> task_fn ` set (added_tasks begin_id i tlist)"
    unfolding fns added_fns_nonzero[OF False] by simp
  have b: "F_CheckReduce h \<in> task_fn ` set (added_tasks begin_id i tlist)"
    unfolding fns added_fns_nonzero[OF False] by (cases h) simp_all
  have c: "\<forall>t\<in>set (added_tasks begin_id i tlist).
      task_fn t = F_CheckReduce h \<longrightarrow> h \<noteq> R0DotVk \<longrightarrow> h \<noteq> GlobalRes \<longrightarrow>
        depends_on_one (added_tasks begin_id i tlist) t (\<lambda>f. f = corresponding_task h)"
    using check_deps_nonzero[OF False, of begin_id tlist]
    by (auto simp: list_all_iff split: task_fn.splits)
  have d: "\<forall>t\<in>set (added_tasks begin_id i tlist).
      task_fn t = F_StartReduce h \<longrightarrow>
        depends_on_one (added_tasks begin_id i tlist) t (\<lambda>f. f = corresponding_task h)"
    using a by (metis imageI)
  from a b c d False show ?thesis by simp
qed

text \<open>
  The handle of \<open>rho_i\<close> on partitions 1 and 0.
\<close>

theorem reduce_tasks_per_partition_witness:
  "(F_StartReduce Rhoi \<in> task_fn ` set (added_tasks none 1 empty_TaskList)) = ((1::int) = 0) \<and>
   F_CheckReduce Rhoi \<in> task_fn ` set (added_tasks none 1 empty_TaskList) \<and>
   (1::int) \<noteq> 0 \<and> Rhoi \<noteq> R0DotVk \<and> Rhoi \<noteq> GlobalRes \<and>
   (\<exists>t\<in>set (added_tasks none 1 empty_TaskList).
      task_fn t = F_CheckReduce Rhoi \<and>
      depends_on_one (added_tasks none 1 empty_TaskList) t (\<lambda>f. f = F_DotProduct Res0 Res Rhoi)) \<and>
   (\<exists>t\<in>set (added_tasks none 0 empty_TaskList).
      task_fn t = F_StartReduce Rhoi \<and>
      depends_on_one (added_tasks none 0 empty_TaskList) t (\<lambda>f. f = F_DotProduct Res0 Res Rhoi)) \<and>
   (\<exists>t\<in>set (added_tasks none 0 empty_TaskList).
      task_fn t = F_CheckReduce Rhoi \<and>
      depends_on_one (added_tasks none 0 empty_TaskList) t (\<lambda>f. f = F_StartReduce Rhoi))"
proof -
  note r1 = reduce_tasks_per_partition[of Rhoi none 1 empty_TaskList]
  note r0 = reduce_tasks_per_partition[of Rhoi none 0 empty_TaskList]
  have ct: "corresponding_task Rhoi = F_DotProduct Res0 Res Rhoi"
    by (simp add: corresponding_task_def)
  from r1 obtain t where t: "t \<in> set (added_tasks none 1 empty_TaskList)"
    and f: "task_fn t = F_CheckReduce Rhoi"
    by (metis (no_types, lifting) imageE)
  from r1 t f have dt: "depends_on_one (added_tasks none 1 empty_TaskList) t
      (\<lambda>f. f = F_DotProduct Res0 Res Rhoi)"
    by (simp add: ct)
  from r0 obtain s where s: "s \<in> set (added_tasks none 0 empty_TaskList)"
    and fs: "task_fn s = F_StartReduce Rhoi"
    by (metis (no_types, lifting) imageE)
  from r0 s fs have ds: "depends_on_one (added_tasks none 0 empty_TaskList) s
      (\<lambda>f. f = F_DotProduct Res0 Res Rhoi)"
    by (simp add: ct)
  from r0 obtain c where c: "c \<in> set (added_tasks none 0 empty_TaskList)"
    and fc: "task_fn c = F_CheckReduce Rhoi"
    by (metis (no_types, lifting) imageE)
  from r0 c fc have dc: "depends_on_one (added_tasks none 0 empty_TaskList) c
      (\<lambda>f. f = F_StartReduce Rhoi)"
    by simp
  have e1: "\<exists>t\<in>set (added_tasks none 1 empty_TaskList).
      task_fn t = F_CheckReduce Rhoi \<and>
      depends_on_one (added_tasks none 1 empty_TaskList) t (\<lambda>f. f = F_DotProduct Res0 Res Rhoi)"
    using t f dt by blast
  have e2: "\<exists>t\<in>set (added_tasks none 0 empty_TaskList).
      task_fn t = F_StartReduce Rhoi \<and>
      depends_on_one (added_tasks none 0 empty_TaskList) t (\<lambda>f. f = F_DotProduct Res0 Res Rhoi)"
    using s fs ds by blast
  have e3: "\<exists>t\<in>set (added_tasks none 0 empty_TaskList).
      task_fn t = F_CheckReduce Rhoi \<and>
      depends_on_one (added_tasks none 0 empty_TaskList) t (\<lambda>f. f = F_StartReduce Rhoi)"
    using c fc dc by blast
  from r1 e1 e2 e3 show ?thesis by simp
qed

text \<open>
  Claim C4 as stated fails: the list of partition 1 contains a \<open>CheckReduce\<close> task.
\<close>

theorem CheckReduce_on_other_partition_counterexample:
  "(1::int) \<noteq> 0 \<and>
   F_CheckReduce Rhoi \<in> task_fn ` set (tasks (snd (CreateTaskList none 1 empty_TaskList)))"
  by (simp add: CreateTaskList_unfold empty_TaskList_def)

end
